theory Spec2Isabelle
  imports Main "HOL-Library.AList" "HOL-Library.Char_ord" "HOL-Library.List_Lexorder"
begin

section \<open>Cluster bookkeeping of \<open>SAH5Clusters\<close> (storm_analysis/dbscan/clusters_sa_h5py.py)\<close>

text \<open>
  The class \<open>SAH5Clusters\<close> keeps clustering results inside an HDF5 file: a top-level
  group \<open>clusters\<close> with the attributes \<open>n_clusters\<close> and \<open>info\<close>, and one child group
  \<open>cl_0\<close>, \<open>cl_1\<close>, ... per cluster, each with one dataset per cross-reference field and
  the attribute \<open>cl_size\<close>. Every method is modelled as a function on an explicit file
  state. A Python exception is a value \<open>Inl e\<close>; a method that mutates the file returns
  the file as it is when the method returns or raises.
\<close>

subsection \<open>Exceptions\<close>

datatype error =
    KeyError string         \<comment> \<open>missing key of a dict, a group or an attribute set\<close>
  | AssertionError string   \<comment> \<open>a failed \<open>assert\<close>, with its message\<close>
  | ValueError              \<comment> \<open>numpy reduction of an empty array, shape mismatch, h5py name clash\<close>
  | TypeError               \<comment> \<open>iterating over \<open>None\<close>\<close>
  | AttributeError          \<comment> \<open>attribute access on \<open>None\<close>\<close>
  | IndexError              \<comment> \<open>numpy index out of bounds or of the wrong length\<close>

type_synonym 'a result = "error + 'a"

subsection \<open>Python's \<open>str\<close> on integers and the group names\<close>

fun str_nat :: "nat \<Rightarrow> string" where
  "str_nat n =
     (if n < 10 then [''0123456789'' ! n]
      else str_nat (n div 10) @ [''0123456789'' ! (n mod 10)])"

declare str_nat.simps [simp del]

definition str_int :: "int \<Rightarrow> string" where
  "str_int i = (if i < 0 then CHR ''-'' # str_nat (nat (- i)) else str_nat (nat i))"

text \<open>\<open>getClusterName\<close>: \<open>"cl_" + str(index)\<close>.\<close>

definition getClusterName :: "int \<Rightarrow> string" where
  "getClusterName index = ''cl_'' @ str_int index"

subsection \<open>numpy arrays and Python dicts\<close>

text \<open>
  A one-dimensional numpy array is its dtype and its elements. The element type \<open>'v\<close>
  and the dtype type \<open>'d\<close> are left open: the code only copies, selects and converts
  elements.
\<close>

record ('d, 'v) ndarray =
  dtype :: 'd
  elems :: "'v list"

definition size_of :: "('d, 'v) ndarray \<Rightarrow> nat" where
  "size_of a = length (elems a)"

text \<open>
  A Python dict is an association list in insertion order; \<open>d[k] = v\<close> is
  \<open>AList.update k v d\<close> (replace in place, or append), \<open>d[k]\<close> raises \<open>KeyError\<close> for a
  missing key.
\<close>

type_synonym ('d, 'v) pydict = "(string \<times> ('d, 'v) ndarray) list"

definition dict_get :: "(string \<times> 'a) list \<Rightarrow> string \<Rightarrow> 'a result" where
  "dict_get d k = (case map_of d k of None \<Rightarrow> Inl (KeyError k) | Some v \<Rightarrow> Inr v)"

definition dict_has :: "(string \<times> 'a) list \<Rightarrow> string \<Rightarrow> bool" where
  "dict_has d k = (map_of d k \<noteq> None)"

text \<open>\<open>cluster_id == i\<close>, \<open>numpy.count_nonzero(mask)\<close> and \<open>array[mask]\<close>.\<close>

definition eq_mask :: "int list \<Rightarrow> int \<Rightarrow> bool list" where
  "eq_mask cluster_id i = map (\<lambda>c. c = i) cluster_id"

definition count_nonzero :: "bool list \<Rightarrow> nat" where
  "count_nonzero m = length (filter (\<lambda>b. b) m)"

definition getitem_mask :: "('d, 'v) ndarray \<Rightarrow> bool list \<Rightarrow> ('d, 'v) ndarray result" where
  "getitem_mask a m =
     (if length m \<noteq> size_of a then Inl IndexError
      else Inr (a\<lparr>elems := map fst (filter snd (zip (elems a) m))\<rparr>))"

text \<open>\<open>numpy.amin\<close> and \<open>numpy.amax\<close> raise \<open>ValueError\<close> on an empty array.\<close>

definition amin :: "int list \<Rightarrow> int result" where
  "amin xs = (case xs of [] \<Rightarrow> Inl ValueError | x # r \<Rightarrow> Inr (fold min r x))"

definition amax :: "int list \<Rightarrow> int result" where
  "amax xs = (case xs of [] \<Rightarrow> Inl ValueError | x # r \<Rightarrow> Inr (fold max r x))"

text \<open>
  The cluster ids and the integer attributes read back from the file are numpy \<open>int64\<close>
  values: integers from \<open>- 2 ^ 63\<close> up to \<open>2 ^ 63 - 1\<close>. Adding a Python integer to such
  a value stays in \<open>int64\<close> and wraps around; \<open>wrap64\<close> is the value of the result.
\<close>

definition is_int64 :: "int \<Rightarrow> bool" where
  "is_int64 i = (- (2 ^ 63) \<le> i \<and> i < 2 ^ 63)"

definition wrap64 :: "int \<Rightarrow> int" where
  "wrap64 i = (i + 2 ^ 63) mod 2 ^ 64 - 2 ^ 63"

subsection \<open>The HDF5 file\<close>

text \<open>
  A cluster group \<open>cl_N\<close> holds its datasets in the order in which the group iterates
  over them, which for h5py is the order of their names, and the attribute \<open>cl_size\<close>. The group \<open>clusters\<close> holds its child groups
  by name and the attributes \<open>n_clusters\<close> and \<open>info\<close>. An attribute that was never
  written is \<open>None\<close>. Of the file \<open>self.hdf5\<close> only the entry \<open>clusters\<close> is touched by
  this class; the localizations and tracks are reached through the base class.
\<close>

record ('d, 'v) cl_grp =
  datasets :: "('d, 'v) pydict"
  cl_size_attr :: "int option"

record ('d, 'v) clusters_grp =
  children :: "string \<rightharpoonup> ('d, 'v) cl_grp"
  n_clusters_attr :: "int option"
  info_attr :: "string option"

record ('d, 'v) sa_h5 =
  clusters :: "('d, 'v) clusters_grp option"

definition empty_cl_grp :: "('d, 'v) cl_grp" where
  "empty_cl_grp = \<lparr>datasets = [], cl_size_attr = None\<rparr>"

definition empty_clusters_grp :: "('d, 'v) clusters_grp" where
  "empty_clusters_grp = \<lparr>children = Map.empty, n_clusters_attr = None, info_attr = None\<rparr>"

text \<open>
  h5py: \<open>create_dataset\<close> and \<open>create_group\<close> raise when the name is taken. A new dataset
  takes its place among the others by its name (strings compare character by character).
\<close>

definition create_dataset ::
  "('d, 'v) cl_grp \<Rightarrow> string \<Rightarrow> ('d, 'v) ndarray \<Rightarrow> unit result \<times> ('d, 'v) cl_grp" where
  "create_dataset g field data =
     (if dict_has (datasets g) field then (Inl ValueError, g)
      else (Inr (), g\<lparr>datasets := insort_key fst (field, data) (datasets g)\<rparr>))"

definition create_group ::
  "('d, 'v) clusters_grp \<Rightarrow> string \<Rightarrow> unit result \<times> ('d, 'v) clusters_grp" where
  "create_group c name =
     (if children c name \<noteq> None then (Inl ValueError, c)
      else (Inr (), c\<lparr>children := (children c)(name \<mapsto> empty_cl_grp)\<rparr>))"

subsection \<open>\<open>hasClusters\<close>, \<open>getClusters\<close>, \<open>getNClusters\<close>, \<open>getClusterGroup\<close>\<close>

definition hasClusters :: "('d, 'v) sa_h5 \<Rightarrow> bool" where
  "hasClusters h = (clusters h \<noteq> None)"

text \<open>\<open>self.hdf5["clusters"]\<close> raises \<open>KeyError\<close> when the file has no such group.\<close>

definition getClusters :: "('d, 'v) sa_h5 \<Rightarrow> ('d, 'v) clusters_grp result" where
  "getClusters h = (case clusters h of None \<Rightarrow> Inl (KeyError ''clusters'') | Some c \<Rightarrow> Inr c)"

definition getNClusters :: "('d, 'v) sa_h5 \<Rightarrow> int result" where
  "getNClusters h =
     (case getClusters h of
        Inl e \<Rightarrow> Inl e
      | Inr c \<Rightarrow> (case n_clusters_attr c of
                    None \<Rightarrow> Inl (KeyError ''n_clusters'')
                  | Some n \<Rightarrow> Inr n))"

text \<open>
  \<open>getClusterGroup\<close> returns the group when its name is in the container and falls off
  the end of the function (Python's \<open>None\<close>) otherwise.
\<close>

definition getClusterGroup :: "('d, 'v) sa_h5 \<Rightarrow> int \<Rightarrow> ('d, 'v) cl_grp option result" where
  "getClusterGroup h index =
     (let cl_name = getClusterName index in
      case getClusters h of
        Inl e \<Rightarrow> Inl e
      | Inr c \<Rightarrow> (if children c cl_name \<noteq> None then Inr (children c cl_name) else Inr None))"

subsection \<open>\<open>addClusters\<close>\<close>

text \<open>The size check: the first field, in the dict's order, whose size is wrong.\<close>

fun check_sizes :: "('d, 'v) pydict \<Rightarrow> nat \<Rightarrow> unit result" where
  "check_sizes [] n = Inr ()"
| "check_sizes ((data, a) # r) n =
     (if size_of a = n then check_sizes r n
      else Inl (AssertionError (''Incorrect size for data '' @ data)))"

text \<open>The inner loop \<open>for field in cluster_data: cl_grp.create_dataset(...)\<close>.\<close>

fun create_datasets ::
  "('d, 'v) cl_grp \<Rightarrow> ('d, 'v) pydict \<Rightarrow> bool list \<Rightarrow> unit result \<times> ('d, 'v) cl_grp" where
  "create_datasets g [] cl_mask = (Inr (), g)"
| "create_datasets g ((field, a) # r) cl_mask =
     (case getitem_mask a cl_mask of
        Inl e \<Rightarrow> (Inl e, g)
      | Inr sel \<Rightarrow>
          (case create_dataset g field sel of
             (Inl e, g') \<Rightarrow> (Inl e, g')
           | (Inr _, g') \<Rightarrow> create_datasets g' r cl_mask))"

text \<open>
  The loop \<open>for i in range(start, end)\<close> over the candidate ids, threading the container
  and the counter \<open>n_clusters\<close>. When a step raises, the container is returned as the
  step left it.
\<close>

fun add_loop ::
  "('d, 'v) clusters_grp \<Rightarrow> int \<Rightarrow> int list \<Rightarrow> ('d, 'v) pydict \<Rightarrow> int list
     \<Rightarrow> int result \<times> ('d, 'v) clusters_grp" where
  "add_loop c n_clusters cluster_id cluster_data [] = (Inr n_clusters, c)"
| "add_loop c n_clusters cluster_id cluster_data (i # rest) =
     (let cl_mask = eq_mask cluster_id i;
          cl_size = count_nonzero cl_mask
      in if cl_size > 0 then
           (case create_group c (getClusterName n_clusters) of
              (Inl e, c') \<Rightarrow> (Inl e, c')
            | (Inr _, c') \<Rightarrow>
                (case create_datasets empty_cl_grp cluster_data cl_mask of
                   (Inl e, g) \<Rightarrow>
                     (Inl e, c'\<lparr>children := (children c')(getClusterName n_clusters \<mapsto> g)\<rparr>)
                 | (Inr _, g) \<Rightarrow>
                     add_loop
                       (c'\<lparr>children := (children c')(getClusterName n_clusters \<mapsto>
                                          g\<lparr>cl_size_attr := Some (int cl_size)\<rparr>)\<rparr>)
                       (n_clusters + 1) cluster_id cluster_data rest))
         else add_loop c n_clusters cluster_id cluster_data rest)"

text \<open>
  \<open>addClusters\<close>: the old container is deleted and an empty one created first; then the
  sizes are checked, the range of ids is computed, the groups are written and finally
  the attribute \<open>n_clusters\<close>. \<open>range(start, end)\<close> is the list \<open>[start..end - 1]\<close>;
  \<open>numpy.amax(cluster_id) + 1\<close> is computed in \<open>int64\<close>.
\<close>

definition addClusters ::
  "('d, 'v) sa_h5 \<Rightarrow> int list \<Rightarrow> ('d, 'v) pydict \<Rightarrow> unit result \<times> ('d, 'v) sa_h5" where
  "addClusters h cluster_id cluster_data =
     (let h1 = (if hasClusters h then h\<lparr>clusters := None\<rparr> else h);
          h2 = h1\<lparr>clusters := Some empty_clusters_grp\<rparr>
      in case check_sizes cluster_data (length cluster_id) of
           Inl e \<Rightarrow> (Inl e, h2)
         | Inr _ \<Rightarrow>
        (case amin cluster_id of
           Inl e \<Rightarrow> (Inl e, h2)
         | Inr start \<Rightarrow>
        (case amax cluster_id of
           Inl e \<Rightarrow> (Inl e, h2)
         | Inr mx \<Rightarrow>
        (let end = wrap64 (mx + 1) in
         case add_loop empty_clusters_grp 0 cluster_id cluster_data [start..end - 1] of
           (Inl e, c) \<Rightarrow> (Inl e, h2\<lparr>clusters := Some c\<rparr>)
         | (Inr n_clusters, c) \<Rightarrow>
             (Inr (), h2\<lparr>clusters := Some (c\<lparr>n_clusters_attr := Some (n_clusters - 1)\<rparr>)\<rparr>)))))"

subsection \<open>numpy operations on elements and the record store\<close>

text \<open>
  What numpy does to single elements is a parameter of the model: the zero of a dtype
  (\<open>numpy.zeros\<close>), the conversion of a value stored into an array of a dtype, Python's
  \<open>int(x)\<close>, the use of a value as an index (\<open>None\<close> when it is not an integer, where
  numpy raises \<open>IndexError\<close>), the product of two values, the embedding of Python
  integers (\<open>numpy.arange\<close>, loop counters), the float \<open>1000.0\<close>, and the three dtypes
  the code names: \<open>numpy.int\<close>, \<open>numpy.int32\<close> and the default float dtype.
  \<open>numpy.int\<close> is read as in the numpy releases that have it (an alias of Python's
  \<open>int\<close>; later releases removed the name).
\<close>

record ('d, 'v) numpy =
  np_zero :: "'d \<Rightarrow> 'v"
  np_cast :: "'d \<Rightarrow> 'v \<Rightarrow> 'v"
  np_int :: "'v \<Rightarrow> int"
  np_index :: "'v \<Rightarrow> int option"
  np_mul :: "'v \<Rightarrow> 'v \<Rightarrow> 'v"
  np_of_int :: "int \<Rightarrow> 'v"
  np_1000 :: 'v
  dt_int :: 'd
  dt_int32 :: 'd
  dt_float :: 'd

text \<open>
  The methods of the base class \<open>SAH5Py\<close> that this class calls are not part of the
  file; what they return is a parameter. The two single-group lookups may raise; the two
  iterators yield finitely many groups.
\<close>

record ('d, 'v) record_store =
  getLocalizationsInFrame :: "int \<Rightarrow> bool \<Rightarrow> string list option \<Rightarrow> ('d, 'v) pydict result"
  getTracksByIndex :: "int \<Rightarrow> string list option \<Rightarrow> ('d, 'v) pydict result"
  getPixelSize :: 'v
  hasTracks :: bool
  getNTracks :: nat
  tracksIterator :: "string list \<Rightarrow> ('d, 'v) pydict list"
  getNLocalizations :: nat
  localizationsIterator :: "string list \<Rightarrow> (int \<times> ('d, 'v) pydict) list"

definition rbind :: "'a result \<Rightarrow> ('a \<Rightarrow> 'b result) \<Rightarrow> 'b result" where
  "rbind m f = (case m of Inl e \<Rightarrow> Inl e | Inr x \<Rightarrow> f x)"

definition np_zeros :: "('d, 'v) numpy \<Rightarrow> nat \<Rightarrow> 'd \<Rightarrow> ('d, 'v) ndarray" where
  "np_zeros np n dt = \<lparr>dtype = dt, elems = replicate n (np_zero np dt)\<rparr>"

text \<open>\<open>a[j]\<close> for an integer \<open>j\<close>: a negative index counts from the end.\<close>

definition getitem :: "('d, 'v) ndarray \<Rightarrow> int \<Rightarrow> 'v result" where
  "getitem a j =
     (let n = int (size_of a); k = (if j < 0 then j + n else j)
      in if 0 \<le> k \<and> k < n then Inr (elems a ! nat k) else Inl IndexError)"

text \<open>\<open>a[i] = v\<close> for a loop index \<open>i\<close>: the value is converted to the array's dtype.\<close>

definition setitem ::
  "('d, 'v) numpy \<Rightarrow> ('d, 'v) ndarray \<Rightarrow> nat \<Rightarrow> 'v \<Rightarrow> ('d, 'v) ndarray result" where
  "setitem np a i v =
     (if i < size_of a then Inr (a\<lparr>elems := (elems a)[i := np_cast np (dtype a) v]\<rparr>)
      else Inl IndexError)"

text \<open>
  \<open>a[start:end] = values\<close>: the slice is clipped to the array; the values must have the
  length of the slice, or length one (broadcast), else numpy raises \<open>ValueError\<close>.
  \<open>a[start:end] = scalar\<close> fills the slice.
\<close>

definition setslice ::
  "('d, 'v) numpy \<Rightarrow> ('d, 'v) ndarray \<Rightarrow> nat \<Rightarrow> nat \<Rightarrow> 'v list \<Rightarrow> ('d, 'v) ndarray result" where
  "setslice np a start end vs =
     (let s = min start (size_of a); e = max s (min end (size_of a)); n = e - s
      in if length vs = n then
           Inr (a\<lparr>elems := take s (elems a) @ map (np_cast np (dtype a)) vs @ drop e (elems a)\<rparr>)
         else if length vs = 1 then
           Inr (a\<lparr>elems := take s (elems a) @ replicate n (np_cast np (dtype a) (hd vs))
                              @ drop e (elems a)\<rparr>)
         else Inl ValueError)"

definition setslice_scalar ::
  "('d, 'v) numpy \<Rightarrow> ('d, 'v) ndarray \<Rightarrow> nat \<Rightarrow> nat \<Rightarrow> 'v \<Rightarrow> ('d, 'v) ndarray" where
  "setslice_scalar np a start end v =
     (let s = min start (size_of a); e = max s (min end (size_of a)); n = e - s
      in a\<lparr>elems := take s (elems a) @ replicate n (np_cast np (dtype a) v) @ drop e (elems a)\<rparr>)"

subsection \<open>\<open>getCluster\<close> and \<open>getClusterData\<close>\<close>

text \<open>
  \<open>getCluster\<close> iterates over the group it is given; given \<open>None\<close> the \<open>for\<close> statement
  raises \<open>TypeError\<close>.
\<close>

definition getCluster :: "('d, 'v) cl_grp option \<Rightarrow> ('d, 'v) pydict result" where
  "getCluster group' =
     (case group' of
        None \<Rightarrow> Inl TypeError
      | Some g \<Rightarrow> Inr (fold (\<lambda>(field, a) cl_dict. AList.update field a cl_dict) (datasets g) []))"

text \<open>\<open>for field in locs: cl[field] = numpy.zeros(cl_size, locs[field].dtype)\<close>.\<close>

definition alloc_fields ::
  "('d, 'v) numpy \<Rightarrow> nat \<Rightarrow> ('d, 'v) pydict \<Rightarrow> ('d, 'v) pydict \<Rightarrow> ('d, 'v) pydict" where
  "alloc_fields np cl_size locs cl =
     fold (\<lambda>(field, a) cl. AList.update field (np_zeros np cl_size (dtype a)) cl) locs cl"

text \<open>\<open>for field in locs: cl[field][i] = locs[field][cl_dict["loc_id"][i]]\<close>.\<close>

fun fill_fields ::
  "('d, 'v) numpy \<Rightarrow> ('d, 'v) pydict \<Rightarrow> ('d, 'v) pydict \<Rightarrow> nat \<Rightarrow> ('d, 'v) pydict
     \<Rightarrow> ('d, 'v) pydict result" where
  "fill_fields np cl cl_dict i [] = Inr cl"
| "fill_fields np cl cl_dict i ((field, src) # rest) =
     rbind (dict_get cl_dict ''loc_id'') (\<lambda>loc_id.
     rbind (getitem loc_id (int i)) (\<lambda>j.
     rbind (case np_index np j of None \<Rightarrow> Inl IndexError | Some k \<Rightarrow> getitem src k) (\<lambda>v.
     rbind (dict_get cl field) (\<lambda>dst.
     rbind (setitem np dst i v) (\<lambda>dst'.
       fill_fields np (AList.update field dst' cl) cl_dict i rest)))))"

text \<open>
  The loop \<open>for i in range(cl_size)\<close>. Both branches of \<open>getClusterData\<close> run this loop;
  they differ in the array of group numbers (\<open>frame\<close> or \<open>track_id\<close>) and in the lookup
  (\<open>getLocalizationsInFrame\<close> or \<open>getTracksByIndex\<close>), which are the parameters \<open>ids\<close>
  and \<open>lookup\<close>.
\<close>

fun join_loop ::
  "('d, 'v) numpy \<Rightarrow> (int \<Rightarrow> ('d, 'v) pydict result) \<Rightarrow> ('d, 'v) pydict \<Rightarrow> ('d, 'v) ndarray
     \<Rightarrow> nat \<Rightarrow> ('d, 'v) pydict \<Rightarrow> nat list \<Rightarrow> ('d, 'v) pydict result" where
  "join_loop np lookup cl_dict ids cl_size cl [] = Inr cl"
| "join_loop np lookup cl_dict ids cl_size cl (i # rest) =
     rbind (getitem ids (int i)) (\<lambda>g.
     rbind (lookup (np_int np g)) (\<lambda>locs.
     rbind (fill_fields np (if cl = [] then alloc_fields np cl_size locs cl else cl)
              cl_dict i locs) (\<lambda>cl'.
       join_loop np lookup cl_dict ids cl_size cl' rest)))"

text \<open>\<open>for field in cl_dict: cl[field] = cl_dict[field]\<close>.\<close>

definition merge_fields :: "('d, 'v) pydict \<Rightarrow> ('d, 'v) pydict \<Rightarrow> ('d, 'v) pydict" where
  "merge_fields cl cl_dict = fold (\<lambda>(field, a) cl. AList.update field a cl) cl_dict cl"

definition getClusterData ::
  "('d, 'v) numpy \<Rightarrow> ('d, 'v) record_store \<Rightarrow> ('d, 'v) sa_h5 \<Rightarrow> int \<Rightarrow> string list option
     \<Rightarrow> ('d, 'v) pydict result" where
  "getClusterData np rs h index fields' =
     rbind (getClusterGroup h index) (\<lambda>group'.
     rbind (getCluster group') (\<lambda>cl_dict.
       if cl_dict = [] then Inr []
       else
         rbind
           (if dict_has cl_dict ''frame'' then
              rbind (dict_get cl_dict ''frame'') (\<lambda>frame.
                join_loop np (\<lambda>f. getLocalizationsInFrame rs f True fields')
                  cl_dict frame (size_of frame) [] [0..<size_of frame])
            else
              rbind (dict_get cl_dict ''track_id'') (\<lambda>track_id.
                join_loop np (\<lambda>t. getTracksByIndex rs t fields')
                  cl_dict track_id (size_of track_id) [] [0..<size_of track_id]))
           (\<lambda>cl. Inr (merge_fields cl cl_dict))))"

subsection \<open>\<open>clustersIterator\<close>\<close>

text \<open>
  The generator is modelled by what it yields, in order, and how it ends: \<open>None\<close> when
  the loop runs to its end, \<open>Some e\<close> when an exception ends it. \<open>cl_grp.attrs\<close> on the
  \<open>None\<close> that \<open>getClusterGroup\<close> returns for a missing group raises \<open>AttributeError\<close>.
  \<open>getNClusters\<close> returns the attribute as h5py reads it, an \<open>int64\<close>, so
  \<open>self.getNClusters() + 1\<close> is computed in \<open>int64\<close>.
\<close>

fun iter_loop ::
  "('d, 'v) numpy \<Rightarrow> ('d, 'v) record_store \<Rightarrow> ('d, 'v) sa_h5 \<Rightarrow> string list option \<Rightarrow> int
     \<Rightarrow> int list \<Rightarrow> (int \<times> ('d, 'v) pydict) list \<times> error option" where
  "iter_loop np rs h fields' min_size [] = ([], None)"
| "iter_loop np rs h fields' min_size (i # rest) =
     (case getClusterGroup h i of
        Inl e \<Rightarrow> ([], Some e)
      | Inr None \<Rightarrow> ([], Some AttributeError)
      | Inr (Some cl_grp) \<Rightarrow>
          (case cl_size_attr cl_grp of
             None \<Rightarrow> ([], Some (KeyError ''cl_size''))
           | Some sz \<Rightarrow>
               if sz > min_size then
                 (case getClusterData np rs h i fields' of
                    Inl e \<Rightarrow> ([], Some e)
                  | Inr d \<Rightarrow>
                      (case iter_loop np rs h fields' min_size rest of
                         (ys, st) \<Rightarrow> ((i, d) # ys, st)))
               else iter_loop np rs h fields' min_size rest))"

definition clustersIterator ::
  "('d, 'v) numpy \<Rightarrow> ('d, 'v) record_store \<Rightarrow> ('d, 'v) sa_h5 \<Rightarrow> string list option \<Rightarrow> int
     \<Rightarrow> bool \<Rightarrow> (int \<times> ('d, 'v) pydict) list \<times> error option" where
  "clustersIterator np rs h fields' min_size skip_unclustered =
     (if \<not> hasClusters h then ([], None)
      else
        (let start = (if \<not> skip_unclustered then 0 else 1)
         in case getNClusters h of
              Inl e \<Rightarrow> ([], Some e)
            | Inr n \<Rightarrow> iter_loop np rs h fields' min_size [start..wrap64 (n + 1) - 1]))"

subsection \<open>\<open>getClusteringInfo\<close> and \<open>setClusteringInfo\<close>\<close>

definition getClusteringInfo :: "('d, 'v) sa_h5 \<Rightarrow> string result" where
  "getClusteringInfo h =
     rbind (getClusters h) (\<lambda>c.
       case info_attr c of None \<Rightarrow> Inl (KeyError ''info'') | Some s \<Rightarrow> Inr s)"

definition setClusteringInfo ::
  "('d, 'v) sa_h5 \<Rightarrow> string \<Rightarrow> unit result \<times> ('d, 'v) sa_h5" where
  "setClusteringInfo h info =
     (case getClusters h of
        Inl e \<Rightarrow> (Inl e, h)
      | Inr c \<Rightarrow> (Inr (), h\<lparr>clusters := Some (c\<lparr>info_attr := Some info\<rparr>)\<rparr>))"

subsection \<open>\<open>getDataForClustering\<close>\<close>

text \<open>
  The arrays that the two loops of \<open>getDataForClustering\<close> fill, with the write position
  \<open>start\<close>. \<open>fs_grp\<close> is \<open>track_id\<close> in the first loop and \<open>frame\<close> in the second.
\<close>

record ('d, 'v) fill_state =
  fs_start :: nat
  fs_grp :: "('d, 'v) ndarray"
  fs_loc_id :: "('d, 'v) ndarray"
  fs_x :: "('d, 'v) ndarray"
  fs_y :: "('d, 'v) ndarray"
  fs_z :: "('d, 'v) ndarray"
  fs_c :: "('d, 'v) ndarray"

text \<open>
  The body of both loops, for one group \<open>d\<close> of the store (\<open>tracks\<close> or \<open>locs\<close>) and its
  number \<open>g\<close> (the counter \<open>i\<close> or \<open>f_num\<close>). The first loop writes \<open>loc_id\<close> before
  \<open>track_id\<close> and the second \<open>frame\<close> before \<open>loc_id\<close>; the assignment of the scalar
  cannot raise, so the order of the two does not show.
\<close>

definition fill_step ::
  "('d, 'v) numpy \<Rightarrow> 'v \<Rightarrow> bool \<Rightarrow> 'v \<Rightarrow> ('d, 'v) pydict \<Rightarrow> ('d, 'v) fill_state
     \<Rightarrow> ('d, 'v) fill_state result" where
  "fill_step np pix_to_nm ignore_z g d st =
     rbind (dict_get d ''x'') (\<lambda>dx.
     (let n = size_of dx; start = fs_start st; end = start + n in
     rbind (setslice np (fs_loc_id st) start end (map (\<lambda>k. np_of_int np (int k)) [0..<n])) (\<lambda>loc_id.
     (let grp = setslice_scalar np (fs_grp st) start end g in
     rbind (setslice np (fs_x st) start end (map (\<lambda>v. np_mul np v pix_to_nm) (elems dx))) (\<lambda>x.
     rbind (dict_get d ''y'') (\<lambda>dy.
     rbind (setslice np (fs_y st) start end (map (\<lambda>v. np_mul np v pix_to_nm) (elems dy))) (\<lambda>y.
     rbind (if \<not> ignore_z then
              rbind (dict_get d ''z'') (\<lambda>dz.
                setslice np (fs_z st) start end (map (\<lambda>v. np_mul np v (np_1000 np)) (elems dz)))
            else Inr (fs_z st)) (\<lambda>z.
     rbind (dict_get d ''category'') (\<lambda>dc.
     rbind (setslice np (fs_c st) start end (elems dc)) (\<lambda>c.
       Inr \<lparr>fs_start = start + n, fs_grp = grp, fs_loc_id = loc_id,
            fs_x = x, fs_y = y, fs_z = z, fs_c = c\<rparr>))))))))))"

text \<open>\<open>for i, tracks in enumerate(self.tracksIterator(...))\<close>.\<close>

fun tracks_loop ::
  "('d, 'v) numpy \<Rightarrow> 'v \<Rightarrow> bool \<Rightarrow> int \<Rightarrow> ('d, 'v) pydict list \<Rightarrow> ('d, 'v) fill_state
     \<Rightarrow> ('d, 'v) fill_state result" where
  "tracks_loop np pix_to_nm ignore_z i [] st = Inr st"
| "tracks_loop np pix_to_nm ignore_z i (tracks # rest) st =
     rbind (fill_step np pix_to_nm ignore_z (np_of_int np i) tracks st)
       (tracks_loop np pix_to_nm ignore_z (i + 1) rest)"

text \<open>\<open>for f_num, locs in self.localizationsIterator(...)\<close>.\<close>

fun locs_loop ::
  "('d, 'v) numpy \<Rightarrow> 'v \<Rightarrow> bool \<Rightarrow> (int \<times> ('d, 'v) pydict) list \<Rightarrow> ('d, 'v) fill_state
     \<Rightarrow> ('d, 'v) fill_state result" where
  "locs_loop np pix_to_nm ignore_z [] st = Inr st"
| "locs_loop np pix_to_nm ignore_z ((f_num, locs) # rest) st =
     rbind (fill_step np pix_to_nm ignore_z (np_of_int np f_num) locs st)
       (locs_loop np pix_to_nm ignore_z rest)"

definition zero_state :: "('d, 'v) numpy \<Rightarrow> nat \<Rightarrow> ('d, 'v) fill_state" where
  "zero_state np n =
     \<lparr>fs_start = 0,
      fs_grp = np_zeros np n (dt_int np),
      fs_loc_id = np_zeros np n (dt_int np),
      fs_x = np_zeros np n (dt_float np),
      fs_y = np_zeros np n (dt_float np),
      fs_z = np_zeros np n (dt_float np),
      fs_c = np_zeros np n (dt_int32 np)\<rparr>"

text \<open>The method returns the list \<open>[x, y, z, c, cluster_data]\<close>.\<close>

definition getDataForClustering ::
  "('d, 'v) numpy \<Rightarrow> ('d, 'v) record_store \<Rightarrow> bool
     \<Rightarrow> (('d, 'v) ndarray \<times> ('d, 'v) ndarray \<times> ('d, 'v) ndarray \<times> ('d, 'v) ndarray
          \<times> ('d, 'v) pydict) result" where
  "getDataForClustering np rs ignore_z =
     (let pix_to_nm = getPixelSize rs in
      if hasTracks rs then
        (let total_tracks = getNTracks rs in
         rbind (tracks_loop np pix_to_nm ignore_z 0
                  (tracksIterator rs [''x'', ''y'', ''z'', ''category''])
                  (zero_state np total_tracks)) (\<lambda>st.
           Inr (fs_x st, fs_y st, fs_z st, fs_c st,
                AList.update ''track_id'' (fs_grp st)
                  (AList.update ''loc_id'' (fs_loc_id st) []))))
      else
        (let total_locs = getNLocalizations rs;
             fields' = [''x'', ''y'', ''category''] @ (if \<not> ignore_z then [''z''] else [])
         in
         rbind (locs_loop np pix_to_nm ignore_z (localizationsIterator rs fields')
                  (zero_state np total_locs)) (\<lambda>st.
           Inr (fs_x st, fs_y st, fs_z st, fs_c st,
                AList.update ''loc_id'' (fs_loc_id st)
                  (AList.update ''frame'' (fs_grp st) [])))))"

section \<open>Reference descriptions used in the statements\<close>

text \<open>
  The ids that get a group: the integers between the least and the greatest id of the
  assignment that occur in it, in ascending order.
\<close>

definition spec_ids :: "int list \<Rightarrow> int list" where
  "spec_ids a = filter (\<lambda>i. i \<in> set a) [Min (set a)..Max (set a)]"

text \<open>
  The group of id \<open>i\<close>: every field of the bundle restricted to the positions whose id
  is \<open>i\<close>, in the order of the field names, and the number of those positions as
  \<open>cl_size\<close>. \<open>named_groups\<close> pairs the
  groups of a list of ids with consecutive names, starting at \<open>cl_n\<close>.
\<close>

definition masked_group :: "int list \<Rightarrow> ('d, 'v) pydict \<Rightarrow> int \<Rightarrow> ('d, 'v) cl_grp" where
  "masked_group a b i =
     \<lparr>datasets =
        sort_key fst
          (map (\<lambda>(f, arr). (f, arr\<lparr>elems := nths (elems arr) {p. p < length a \<and> a ! p = i}\<rparr>)) b),
      cl_size_attr = Some (int (count_list a i))\<rparr>"

fun named_groups :: "int list \<Rightarrow> ('d, 'v) pydict \<Rightarrow> int \<Rightarrow> int list \<Rightarrow> (string \<times> ('d, 'v) cl_grp) list" where
  "named_groups a b n [] = []"
| "named_groups a b n (i # r) = (getClusterName n, masked_group a b i) # named_groups a b (n + 1) r"

text \<open>
  What a generator yields when it evaluates a list of entries in order: the values up to
  the first entry that raises, and that exception.
\<close>

fun yield_all :: "(int \<times> 'a result) list \<Rightarrow> (int \<times> 'a) list \<times> error option" where
  "yield_all [] = ([], None)"
| "yield_all ((i, Inl e) # r) = ([], Some e)"
| "yield_all ((i, Inr d) # r) = (case yield_all r of (ys, st) \<Rightarrow> ((i, d) # ys, st))"

text \<open>The stored \<open>cl_size\<close> of the group with index \<open>i\<close>, and whether it exceeds a bound.\<close>

definition stored_size :: "('d, 'v) clusters_grp \<Rightarrow> int \<Rightarrow> int option" where
  "stored_size c i =
     (case children c (getClusterName i) of None \<Rightarrow> None | Some g \<Rightarrow> cl_size_attr g)"

definition size_exceeds :: "('d, 'v) clusters_grp \<Rightarrow> int \<Rightarrow> int \<Rightarrow> bool" where
  "size_exceeds c min_size i =
     (case stored_size c i of None \<Rightarrow> False | Some sz \<Rightarrow> min_size < sz)"

text \<open>
  For \<open>getDataForClustering\<close>: the groups that the store's iterator yields in the mode
  the store is in, with the fields the method requests; the count the store reports;
  the elements of a field of a group; the elements of a field multiplied by a factor
  and converted to the float dtype of the output arrays.
\<close>

definition store_groups :: "('d, 'v) record_store \<Rightarrow> bool \<Rightarrow> ('d, 'v) pydict list" where
  "store_groups rs ignore_z =
     (if hasTracks rs then tracksIterator rs [''x'', ''y'', ''z'', ''category'']
      else map snd (localizationsIterator rs
             ([''x'', ''y'', ''category''] @ (if \<not> ignore_z then [''z''] else []))))"

definition store_total :: "('d, 'v) record_store \<Rightarrow> nat" where
  "store_total rs = (if hasTracks rs then getNTracks rs else getNLocalizations rs)"

definition field_elems :: "('d, 'v) pydict \<Rightarrow> string \<Rightarrow> 'v list" where
  "field_elems d k = (case map_of d k of None \<Rightarrow> [] | Some a \<Rightarrow> elems a)"

definition scaled :: "('d, 'v) numpy \<Rightarrow> ('d, 'v) pydict \<Rightarrow> string \<Rightarrow> 'v \<Rightarrow> 'v list" where
  "scaled np d k factor =
     map (\<lambda>v. np_cast np (dt_float np) (np_mul np v factor)) (field_elems d k)"

text \<open>
  A group is well formed for the method when it has the fields \<open>x\<close>, \<open>y\<close> and \<open>category\<close>,
  and \<open>z\<close> when \<open>z\<close> is read, all of the size of \<open>x\<close>. \<open>n_records\<close> is the number of
  records in all groups.
\<close>

definition group_ok :: "bool \<Rightarrow> ('d, 'v) pydict \<Rightarrow> bool" where
  "group_ok ignore_z d =
     (case (map_of d ''x'', map_of d ''y'', map_of d ''category'') of
        (Some ax, Some ay, Some ac) \<Rightarrow>
          size_of ay = size_of ax \<and> size_of ac = size_of ax \<and>
          (ignore_z \<or> (case map_of d ''z'' of None \<Rightarrow> False | Some az \<Rightarrow> size_of az = size_of ax))
      | _ \<Rightarrow> False)"

definition n_records :: "('d, 'v) record_store \<Rightarrow> bool \<Rightarrow> nat" where
  "n_records rs ignore_z =
     sum_list (map (\<lambda>d. length (field_elems d ''x'')) (store_groups rs ignore_z))"

text \<open>
  The state of an output array while the loops run: a written prefix \<open>P\<close>, then the
  zeros of \<open>numpy.zeros\<close>. \<open>fill_inv\<close> is the invariant of both loops, \<open>z_part\<close> what one
  group adds to the prefix of \<open>z\<close>.
\<close>

definition filled :: "('d, 'v) numpy \<Rightarrow> nat \<Rightarrow> ('d, 'v) ndarray \<Rightarrow> 'v list \<Rightarrow> bool" where
  "filled np tot a P =
     (dtype a = dt_float np \<and> length P \<le> tot \<and>
      elems a = P @ replicate (tot - length P) (np_zero np (dt_float np)))"

definition fill_inv ::
  "('d, 'v) numpy \<Rightarrow> nat \<Rightarrow> ('d, 'v) fill_state \<Rightarrow> 'v list \<Rightarrow> 'v list \<Rightarrow> 'v list \<Rightarrow> bool" where
  "fill_inv np tot st X Y Z =
     (fs_start st = length X \<and> length Y = length X \<and> length Z = length X \<and>
      size_of (fs_grp st) = tot \<and> size_of (fs_loc_id st) = tot \<and> size_of (fs_c st) = tot \<and>
      filled np tot (fs_x st) X \<and> filled np tot (fs_y st) Y \<and> filled np tot (fs_z st) Z)"

definition z_part :: "('d, 'v) numpy \<Rightarrow> bool \<Rightarrow> ('d, 'v) pydict \<Rightarrow> 'v list" where
  "z_part np ignore_z d =
     (if ignore_z then replicate (length (field_elems d ''x'')) (np_zero np (dt_float np))
      else scaled np d ''z'' (np_1000 np))"

text \<open>
  For \<open>getClusterData\<close>: the field that holds the group numbers and the lookup of the
  mode the cross-reference is in; the value that the lookup for member \<open>i\<close> gives for
  field \<open>f\<close> (the lookup of the group \<open>ids[i]\<close>, then its field \<open>f\<close> at the index
  \<open>loc_id[i]\<close>), when there is one.
\<close>

definition mode_key :: "('d, 'v) pydict \<Rightarrow> string" where
  "mode_key cl_dict = (if dict_has cl_dict ''frame'' then ''frame'' else ''track_id'')"

definition mode_lookup ::
  "('d, 'v) record_store \<Rightarrow> ('d, 'v) pydict \<Rightarrow> string list option \<Rightarrow> int
     \<Rightarrow> ('d, 'v) pydict result" where
  "mode_lookup rs cl_dict fields' =
     (if dict_has cl_dict ''frame'' then (\<lambda>f. getLocalizationsInFrame rs f True fields')
      else (\<lambda>t. getTracksByIndex rs t fields'))"

definition member_value ::
  "('d, 'v) numpy \<Rightarrow> (int \<Rightarrow> ('d, 'v) pydict result) \<Rightarrow> ('d, 'v) ndarray \<Rightarrow> ('d, 'v) ndarray
     \<Rightarrow> nat \<Rightarrow> string \<Rightarrow> 'v option" where
  "member_value np lookup ids loc_id i f =
     (case lookup (np_int np (elems ids ! i)) of
        Inl e \<Rightarrow> None
      | Inr d \<Rightarrow>
          (case map_of d f of
             None \<Rightarrow> None
           | Some src \<Rightarrow>
               (case np_index np (elems loc_id ! i) of
                  None \<Rightarrow> None
                | Some j \<Rightarrow> (case getitem src j of Inl e \<Rightarrow> None | Inr v \<Rightarrow> Some v))))"

text \<open>
  The joined fields for a cluster of \<open>n\<close> members: one array per field of the first
  lookup \<open>d0\<close>, of that field's dtype, holding at position \<open>i\<close> the value \<open>V i f\<close> of member
  \<open>i\<close> converted to that dtype. \<open>partial_join\<close> is the same after \<open>k\<close> members, the rest
  still zero.
\<close>

definition joined ::
  "('d, 'v) numpy \<Rightarrow> nat \<Rightarrow> ('d, 'v) pydict \<Rightarrow> (nat \<Rightarrow> string \<Rightarrow> 'v) \<Rightarrow> ('d, 'v) pydict" where
  "joined np n d0 V =
     (if n = 0 then []
      else map (\<lambda>(f, a0). (f, \<lparr>dtype = dtype a0,
                               elems = map (\<lambda>i. np_cast np (dtype a0) (V i f)) [0..<n]\<rparr>)) d0)"

definition partial_join ::
  "('d, 'v) numpy \<Rightarrow> nat \<Rightarrow> ('d, 'v) pydict \<Rightarrow> (nat \<Rightarrow> string \<Rightarrow> 'v) \<Rightarrow> nat \<Rightarrow> ('d, 'v) pydict" where
  "partial_join np n d0 V k =
     map (\<lambda>(f, a0). (f, \<lparr>dtype = dtype a0,
                          elems = map (\<lambda>i. np_cast np (dtype a0) (V i f)) [0..<k]
                                  @ replicate (n - k) (np_zero np (dtype a0))\<rparr>)) d0"

subsection \<open>A small instance for evaluation\<close>

text \<open>
  Integer elements, dtypes by name, conversion the identity; a store with the two frames
  \<open>0\<close> and \<open>1\<close> (two and one localization) and no tracks, which returns every field
  whatever fields are requested.
\<close>

definition example_np :: "(string, int) numpy" where
  "example_np =
     \<lparr>np_zero = (\<lambda>dt. 0), np_cast = (\<lambda>dt v. v), np_int = (\<lambda>v. v), np_index = Some,
      np_mul = (\<lambda>a b. a * b), np_of_int = (\<lambda>i. i), np_1000 = 1000,
      dt_int = ''int64'', dt_int32 = ''int32'', dt_float = ''float64''\<rparr>"

definition example_frame0 :: "(string, int) pydict" where
  "example_frame0 =
     [(''x'', \<lparr>dtype = ''float32'', elems = [1, 2]\<rparr>), (''y'', \<lparr>dtype = ''float32'', elems = [3, 4]\<rparr>),
      (''z'', \<lparr>dtype = ''float32'', elems = [5, 6]\<rparr>), (''category'', \<lparr>dtype = ''int32'', elems = [0, 1]\<rparr>)]"

definition example_frame1 :: "(string, int) pydict" where
  "example_frame1 =
     [(''x'', \<lparr>dtype = ''float32'', elems = [7]\<rparr>), (''y'', \<lparr>dtype = ''float32'', elems = [8]\<rparr>),
      (''z'', \<lparr>dtype = ''float32'', elems = [9]\<rparr>), (''category'', \<lparr>dtype = ''int32'', elems = [2]\<rparr>)]"

definition example_store :: "(string, int) record_store" where
  "example_store =
     \<lparr>getLocalizationsInFrame =
        (\<lambda>f dc fs. if f = 0 then Inr example_frame0 else if f = 1 then Inr example_frame1
                   else Inr []),
      getTracksByIndex =
        (\<lambda>t fs. if t = 0 then Inr example_frame0 else if t = 1 then Inr example_frame1
                 else Inr []),
      getPixelSize = 160,
      hasTracks = False,
      getNTracks = 0,
      tracksIterator = (\<lambda>fs. []),
      getNLocalizations = 3,
      localizationsIterator = (\<lambda>fs. [(0, example_frame0), (1, example_frame1)])\<rparr>"

section \<open>Group names are distinct\<close>


lemma str_nat_nonempty: "str_nat n \<noteq> []"
  by (subst str_nat.simps) simp

lemma digit_inj: "a < 10 \<Longrightarrow> b < 10 \<Longrightarrow> ''0123456789'' ! a = ''0123456789'' ! b \<Longrightarrow> a = b"
proof -
  assume a: "a < 10" and b: "b < 10" and e: "''0123456789'' ! a = ''0123456789'' ! b"
  have d: "distinct ''0123456789''" by simp
  have "a < length ''0123456789''" "b < length ''0123456789''" using a b by simp_all
  with d e show "a = b" by (simp only: nth_eq_iff_index_eq)
qed

lemma str_nat_inj: "str_nat m = str_nat n \<Longrightarrow> m = n"
proof (induction m arbitrary: n rule: str_nat.induct)
  case (1 m)
  show ?case
  proof (cases "m < 10")
    case True
    then have sm: "str_nat m = [''0123456789'' ! m]" by (subst str_nat.simps) simp
    show ?thesis
    proof (cases "n < 10")
      case True
      then have "str_nat n = [''0123456789'' ! n]" by (subst str_nat.simps) simp
      with sm "1.prems" have "''0123456789'' ! m = ''0123456789'' ! n" by simp
      with \<open>m < 10\<close> True show ?thesis by (rule digit_inj)
    next
      case False
      then have "str_nat n = str_nat (n div 10) @ [''0123456789'' ! (n mod 10)]"
        by (subst str_nat.simps) simp
      with sm "1.prems" have "str_nat (n div 10) = []" by simp
      then show ?thesis using str_nat_nonempty by blast
    qed
  next
    case False
    then have sm: "str_nat m = str_nat (m div 10) @ [''0123456789'' ! (m mod 10)]"
      by (subst str_nat.simps) simp
    show ?thesis
    proof (cases "n < 10")
      case True
      then have "str_nat n = [''0123456789'' ! n]" by (subst str_nat.simps) simp
      with sm "1.prems" have "str_nat (m div 10) = []" by simp
      then show ?thesis using str_nat_nonempty by blast
    next
      case nf: False
      then have sn: "str_nat n = str_nat (n div 10) @ [''0123456789'' ! (n mod 10)]"
        by (subst str_nat.simps) simp
      from sm sn "1.prems" have e1: "str_nat (m div 10) = str_nat (n div 10)"
        and e2: "''0123456789'' ! (m mod 10) = ''0123456789'' ! (n mod 10)" by simp_all
      from "1.IH"[OF False e1] have d: "m div 10 = n div 10" .
      have "m mod 10 = n mod 10" by (rule digit_inj[OF _ _ e2]) simp_all
      with d show ?thesis by (metis div_mult_mod_eq)
    qed
  qed
qed

lemma str_nat_digits: "set (str_nat n) \<subseteq> set ''0123456789''"
proof (induction n rule: str_nat.induct)
  case (1 n)
  show ?case
  proof (cases "n < 10")
    case True
    then have "str_nat n = [''0123456789'' ! n]" by (subst str_nat.simps) simp
    moreover have "''0123456789'' ! n \<in> set ''0123456789''"
      using True by (intro nth_mem) simp
    ultimately show ?thesis by simp
  next
    case False
    then have "str_nat n = str_nat (n div 10) @ [''0123456789'' ! (n mod 10)]"
      by (subst str_nat.simps) simp
    moreover have "''0123456789'' ! (n mod 10) \<in> set ''0123456789''"
      by (intro nth_mem) simp
    ultimately show ?thesis using "1.IH"[OF False] by simp
  qed
qed

lemma str_nat_no_minus: "str_nat n \<noteq> CHR ''-'' # s"
proof
  assume "str_nat n = CHR ''-'' # s"
  then have "CHR ''-'' \<in> set (str_nat n)" by simp
  with str_nat_digits[of n] show False by auto
qed

lemma str_int_inj: "str_int i = str_int j \<Longrightarrow> i = j"
  unfolding str_int_def
  by (auto split: if_splits dest!: str_nat_inj simp: str_nat_no_minus str_nat_no_minus[symmetric])

lemma getClusterName_inj: "getClusterName i = getClusterName j \<Longrightarrow> i = j"
  unfolding getClusterName_def by (auto dest: str_int_inj)

section \<open>\<open>addClusters\<close> on well-formed input\<close>

lemma mask_select_nths:
  "length xs = length a \<Longrightarrow> map fst (filter snd (zip xs (eq_mask a i))) = nths xs {p. p < length a \<and> a ! p = i}"
proof (induction xs a rule: list_induct2)
  case Nil
  then show ?case by (simp add: eq_mask_def)
next
  case (Cons x xs c a)
  then show ?case by (simp add: eq_mask_def nths_Cons)
qed

lemma count_nonzero_eq_mask: "count_nonzero (eq_mask a i) = count_list a i"
  by (induction a) (simp_all add: count_nonzero_def eq_mask_def)

lemma count_nonzero_pos: "0 < count_nonzero (eq_mask a i) \<longleftrightarrow> i \<in> set a"
  using count_list_0_iff[of a i] by (auto simp: count_nonzero_eq_mask)

lemma create_datasets_ok:
  "\<forall>(f, arr) \<in> set b. size_of arr = length a \<Longrightarrow> distinct (map fst b) \<Longrightarrow>
   fst ` set b \<inter> fst ` set (datasets g) = {} \<Longrightarrow>
   create_datasets g b (eq_mask a i) =
     (Inr (), g\<lparr>datasets := fold (insort_key fst)
        (map (\<lambda>(f, arr). (f, arr\<lparr>elems := nths (elems arr) {p. p < length a \<and> a ! p = i}\<rparr>)) b)
        (datasets g)\<rparr>)"
proof (induction b arbitrary: g)
  case Nil
  then show ?case by simp
next
  case (Cons fa b)
  obtain f arr where fa: "fa = (f, arr)" by (cases fa)
  from Cons.prems(1) fa have sz: "size_of arr = length a" by simp
  then have len: "length (elems arr) = length a" by (simp add: size_of_def)
  have sel: "getitem_mask arr (eq_mask a i) = Inr (arr\<lparr>elems := nths (elems arr) {p. p < length a \<and> a ! p = i}\<rparr>)"
    using sz len by (simp add: getitem_mask_def mask_select_nths) (simp add: eq_mask_def)
  from Cons.prems(3) fa have fresh: "\<not> dict_has (datasets g) f"
    by (auto simp: dict_has_def map_of_eq_None_iff)
  let ?g' = "g\<lparr>datasets := insort_key fst
      (f, arr\<lparr>elems := nths (elems arr) {p. p < length a \<and> a ! p = i}\<rparr>) (datasets g)\<rparr>"
  have cd: "create_dataset g f (arr\<lparr>elems := nths (elems arr) {p. p < length a \<and> a ! p = i}\<rparr>) = (Inr (), ?g')"
    using fresh by (simp add: create_dataset_def)
  have p1: "\<forall>(f, arr) \<in> set b. size_of arr = length a" using Cons.prems(1) by simp
  have p2: "distinct (map fst b)" using Cons.prems(2) by simp
  have p3: "fst ` set b \<inter> fst ` set (datasets ?g') = {}"
    using Cons.prems(2,3) fa by (auto simp: set_insort_key)
  show ?case
    unfolding fa by (simp add: sel cd Cons.IH[OF p1 p2 p3])
qed

lemma create_datasets_empty:
  assumes sz: "\<forall>(f, arr) \<in> set b. size_of arr = length a" and di: "distinct (map fst b)"
  shows "create_datasets empty_cl_grp b (eq_mask a i) =
     (Inr (), \<lparr>datasets = sort_key fst
        (map (\<lambda>(f, arr). (f, arr\<lparr>elems := nths (elems arr) {p. p < length a \<and> a ! p = i}\<rparr>)) b),
               cl_size_attr = None\<rparr>)"
proof -
  let ?m = "map (\<lambda>(f, arr). (f, arr\<lparr>elems := nths (elems arr) {p. p < length a \<and> a ! p = i}\<rparr>)) b"
  have k: "map fst ?m = map fst b" by (induction b) auto
  have "distinct (map fst ?m)" unfolding k by (rule di)
  then have inj: "inj_on fst (set ?m)" by (simp only: distinct_map)
  have dj: "fst ` set b \<inter> fst ` set (datasets (empty_cl_grp :: ('a, 'b) cl_grp)) = {}"
    by (simp add: empty_cl_grp_def)
  show ?thesis
    unfolding create_datasets_ok[OF sz di dj] sort_key_conv_fold[OF inj]
    by (simp add: empty_cl_grp_def)
qed

lemma named_groups_keys:
  "fst ` set (named_groups a b n ids) = getClusterName ` {n ..< n + int (length ids)}"
proof (induction ids arbitrary: n)
  case Nil
  then show ?case by simp
next
  case (Cons i ids)
  have "{n ..< n + int (length (i # ids))} = insert n {n + 1 ..< n + 1 + int (length ids)}"
    by auto
  then show ?case by (simp add: Cons.IH)
qed

lemma named_groups_fresh: "map_of (named_groups a b (n + 1) ids) (getClusterName n) = None"
proof -
  have "getClusterName n \<notin> fst ` set (named_groups a b (n + 1) ids)"
    unfolding named_groups_keys by (auto dest: getClusterName_inj)
  then show ?thesis by (simp add: map_of_eq_None_iff)
qed

lemma add_loop_ok:
  assumes sz: "\<forall>(f, arr) \<in> set b. size_of arr = length a" and di: "distinct (map fst b)"
  shows "(\<And>k. n \<le> k \<Longrightarrow> children c (getClusterName k) = None) \<Longrightarrow>
     add_loop c n a b cand =
       (Inr (n + int (length (filter (\<lambda>i. i \<in> set a) cand))),
        c\<lparr>children := children c ++ map_of (named_groups a b n (filter (\<lambda>i. i \<in> set a) cand))\<rparr>)"
proof (induction cand arbitrary: c n)
  case Nil
  then show ?case by simp
next
  case (Cons i cand)
  show ?case
  proof (cases "i \<in> set a")
    case False
    then have "\<not> 0 < count_nonzero (eq_mask a i)" by (simp add: count_nonzero_pos)
    then show ?thesis using False Cons.IH[OF Cons.prems] by simp
  next
    case True
    then have pos: "0 < count_nonzero (eq_mask a i)" by (simp add: count_nonzero_pos)
    let ?nm = "getClusterName n"
    let ?c1 = "c\<lparr>children := (children c)(?nm \<mapsto> empty_cl_grp)\<rparr>"
    let ?c2 = "c\<lparr>children := (children c)(?nm \<mapsto> masked_group a b i)\<rparr>"
    have cg: "create_group c ?nm = (Inr (), ?c1)"
      using Cons.prems[of n] by (simp add: create_group_def)
    have fresh: "\<And>k. n + 1 \<le> k \<Longrightarrow> children ?c2 (getClusterName k) = None"
      using Cons.prems by (auto dest: getClusterName_inj)
    have step: "add_loop c n a b (i # cand) = add_loop ?c2 (n + 1) a b cand"
      using pos by (simp add: cg create_datasets_empty[OF sz di] masked_group_def
          count_nonzero_eq_mask Let_def)
    have maps: "(children c)(?nm \<mapsto> masked_group a b i) ++ map_of (named_groups a b (n + 1) ids)
        = children c ++ map_of (named_groups a b n (i # ids))" for ids
      using named_groups_fresh[of a b n ids]
      by (auto simp: map_add_def fun_eq_iff split: option.splits)
    let ?ids = "filter (\<lambda>i. i \<in> set a) cand"
    have fl: "filter (\<lambda>i. i \<in> set a) (i # cand) = i # ?ids" using True by simp
    have "add_loop c n a b (i # cand) = add_loop ?c2 (n + 1) a b cand" by (rule step)
    also have "\<dots> = (Inr (n + 1 + int (length ?ids)),
        ?c2\<lparr>children := children ?c2 ++ map_of (named_groups a b (n + 1) ?ids)\<rparr>)"
      by (rule Cons.IH[OF fresh])
    also have "\<dots> = (Inr (n + int (length (i # ?ids))),
        c\<lparr>children := children c ++ map_of (named_groups a b n (i # ?ids))\<rparr>)"
      using maps[of ?ids] by simp
    finally show ?thesis unfolding fl .
  qed
qed

lemma amin_Min: "a \<noteq> [] \<Longrightarrow> amin a = Inr (Min (set a))"
  by (cases a) (simp_all add: amin_def Min.set_eq_fold[symmetric])

lemma amax_Max: "a \<noteq> [] \<Longrightarrow> amax a = Inr (Max (set a))"
  by (cases a) (simp_all add: amax_def Max.set_eq_fold[symmetric])

lemma check_sizes_ok: "\<forall>(f, arr) \<in> set b. size_of arr = n \<Longrightarrow> check_sizes b n = Inr ()"
  by (induction b) auto

lemma wrap64_id: "is_int64 i \<Longrightarrow> wrap64 i = i"
  by (simp add: is_int64_def wrap64_def)

lemma addClusters_ok:
  assumes ne: "a \<noteq> []" and sz: "\<forall>(f, arr) \<in> set b. size_of arr = length a"
    and di: "distinct (map fst b)" and nw: "is_int64 (Max (set a) + 1)"
  shows "addClusters h a b =
    (Inr (), h\<lparr>clusters := Some
       \<lparr>children = map_of (named_groups a b 0 (spec_ids a)),
        n_clusters_attr = Some (int (length (spec_ids a)) - 1),
        info_attr = None\<rparr>\<rparr>)"
proof -
  have e: "\<And>k. 0 \<le> k \<Longrightarrow> children (empty_clusters_grp :: ('a, 'b) clusters_grp) (getClusterName k) = None"
    by (simp add: empty_clusters_grp_def)
  have loop: "add_loop empty_clusters_grp 0 a b [Min (set a)..Max (set a)] =
      (Inr (int (length (spec_ids a))),
       (empty_clusters_grp :: ('a, 'b) clusters_grp)\<lparr>children := map_of (named_groups a b 0 (spec_ids a))\<rparr>)"
    using add_loop_ok[OF sz di, where n = 0 and c = "empty_clusters_grp :: ('a, 'b) clusters_grp"
        and cand = "[Min (set a)..Max (set a)]"] e
    by (simp add: spec_ids_def empty_clusters_grp_def)
  have "addClusters h a b =
    (Inr (), h\<lparr>clusters := Some
       (empty_clusters_grp\<lparr>children := map_of (named_groups a b 0 (spec_ids a)),
          n_clusters_attr := Some (int (length (spec_ids a)) - 1)\<rparr>)\<rparr>)"
    unfolding addClusters_def
    by (simp add: check_sizes_ok[OF sz] amin_Min[OF ne] amax_Max[OF ne] wrap64_id[OF nw] loop
        hasClusters_def Let_def)
  then show ?thesis by (simp add: empty_clusters_grp_def)
qed

lemma spec_ids_sorted: "sorted (spec_ids a)" "distinct (spec_ids a)"
  by (simp_all add: spec_ids_def sorted_wrt_filter)

lemma spec_ids_set: "set (spec_ids a) = set a"
  by (auto simp: spec_ids_def)

lemma spec_ids_eq: "spec_ids a = sorted_list_of_set (set a)"
  by (rule sorted_distinct_set_unique) (simp_all add: spec_ids_sorted spec_ids_set)

lemma spec_ids_length: "length (spec_ids a) = card (set a)"
  using distinct_card[OF spec_ids_sorted(2), of a] by (simp add: spec_ids_set)

lemma spec_ids_hd: "a \<noteq> [] \<Longrightarrow> spec_ids a ! 0 = Min (set a)"
proof -
  assume ne: "a \<noteq> []"
  then have m: "Min (set a) \<in> set a" and le: "Min (set a) \<le> Max (set a)"
    by (simp_all add: Min_in)
  have "[Min (set a)..Max (set a)] = Min (set a) # [Min (set a) + 1..Max (set a)]"
    using le by (simp add: upto_rec1)
  then show ?thesis using m by (simp add: spec_ids_def)
qed

lemma named_groups_nth:
  "k < length ids \<Longrightarrow>
   map_of (named_groups a b n ids) (getClusterName (n + int k)) = Some (masked_group a b (ids ! k))"
proof (induction ids arbitrary: n k)
  case Nil
  then show ?case by simp
next
  case (Cons i ids)
  show ?case
  proof (cases k)
    case 0
    then show ?thesis by simp
  next
    case (Suc j)
    then have j: "j < length ids" using Cons.prems by simp
    have ne: "getClusterName (n + int k) \<noteq> getClusterName n"
      using Suc by (auto dest: getClusterName_inj)
    have e: "n + int k = (n + 1) + int j" using Suc by simp
    have "map_of (named_groups a b n (i # ids)) (getClusterName (n + int k))
        = map_of (named_groups a b (n + 1) ids) (getClusterName (n + int k))"
      using ne by simp
    also have "\<dots> = Some (masked_group a b (ids ! j))"
      unfolding e by (rule Cons.IH[OF j])
    finally show ?thesis using Suc by simp
  qed
qed

lemma named_groups_dom:
  "dom (map_of (named_groups a b n ids)) = getClusterName ` {n ..< n + int (length ids)}"
  by (simp add: dom_map_of_conv_image_fst named_groups_keys)

lemma unique_position:
  assumes "p < length a"
  shows "\<exists>!k. k < length (spec_ids a) \<and> a ! p = spec_ids a ! k"
proof -
  from assms have "a ! p \<in> set (spec_ids a)" by (simp add: spec_ids_set)
  then obtain k where k: "k < length (spec_ids a)" "spec_ids a ! k = a ! p"
    by (auto simp: in_set_conv_nth)
  show ?thesis
  proof (rule ex1I[of _ k])
    show "k < length (spec_ids a) \<and> a ! p = spec_ids a ! k" using k by simp
  next
    fix j assume "j < length (spec_ids a) \<and> a ! p = spec_ids a ! j"
    with k spec_ids_sorted(2)[of a] show "j = k"
      by (simp add: nth_eq_iff_index_eq)
  qed
qed

lemma length_masked:
  "length xs = length (a :: int list) \<Longrightarrow>
   length (nths xs {p. p < length a \<and> a ! p = i}) = count_list a i"
proof -
  assume l: "length xs = length a"
  have "length (map fst (filter snd (zip xs (eq_mask a i)))) = count_nonzero (eq_mask a i)"
    using l by (induction xs a rule: list_induct2) (simp_all add: eq_mask_def count_nonzero_def)
  then show ?thesis by (simp add: mask_select_nths[OF l] count_nonzero_eq_mask)
qed

lemma check_sizes_find_None:
  "find (\<lambda>(f, arr). size_of arr \<noteq> n) b = None \<Longrightarrow> check_sizes b n = Inr ()"
  by (induction b) (auto split: if_splits)

lemma check_sizes_find_Some:
  "find (\<lambda>(f, arr). size_of arr \<noteq> n) b = Some (f, arr) \<Longrightarrow>
   check_sizes b n = Inl (AssertionError (''Incorrect size for data '' @ f))"
  by (induction b) (auto split: if_splits)

section \<open>The partition written by \<open>addClusters\<close>\<close>

text \<open>
  Claim C1, as amended. For a non-empty assignment \<open>a\<close> whose greatest id plus one is
  still an \<open>int64\<close> value (the greatest id is below \<open>2 ^ 63 - 1\<close>, so that
  \<open>numpy.amax(cluster_id) + 1\<close> does not wrap around) and a bundle \<open>b\<close> (a dict, so with
  distinct keys) whose arrays all have the size of \<open>a\<close>, \<open>addClusters\<close> succeeds and the
  container holds exactly the groups \<open>cl_0\<close>, ..., \<open>cl_(m-1)\<close>, where group \<open>cl_k\<close> is the group of
  the \<open>k\<close>-th id, in ascending order, among the ids between the least and the greatest
  that occur in \<open>a\<close>: its datasets are the fields of \<open>b\<close> restricted to the positions
  carrying that id (stored in the order of the field names) and its \<open>cl_size\<close> is the
  number of those positions. Every position of \<open>a\<close> belongs to exactly one group. For an
  assignment that holds the id \<open>2 ^ 63 - 1\<close> the bound of the loop wraps around to
  \<open>- 2 ^ 63\<close>, the loop does not run, and the call returns with no group written.
\<close>

theorem partition_groups:
  assumes "a \<noteq> []" and "\<forall>(f, arr) \<in> set b. size_of arr = length a"
    and "distinct (map fst b)" and "is_int64 (Max (set a) + 1)"
  shows "\<exists>c. addClusters h a b = (Inr (), h\<lparr>clusters := Some c\<rparr>)
     \<and> dom (children c) = {getClusterName (int k) |k. k < length (spec_ids a)}
     \<and> (\<forall>k < length (spec_ids a).
           children c (getClusterName (int k)) = Some (masked_group a b (spec_ids a ! k)))
     \<and> sorted (spec_ids a) \<and> distinct (spec_ids a) \<and> set (spec_ids a) = set a
     \<and> (\<forall>p < length a. \<exists>!k. k < length (spec_ids a) \<and> a ! p = spec_ids a ! k)"
proof -
  let ?c = "\<lparr>children = map_of (named_groups a b 0 (spec_ids a)),
        n_clusters_attr = Some (int (length (spec_ids a)) - 1),
        info_attr = None\<rparr>"
  have 1: "addClusters h a b = (Inr (), h\<lparr>clusters := Some ?c\<rparr>)"
    by (rule addClusters_ok[OF assms])
  have 2: "dom (children ?c) = {getClusterName (int k) |k. k < length (spec_ids a)}"
  proof -
    have "{0 ..< int (length (spec_ids a))} = int ` {..< length (spec_ids a)}"
    proof (intro set_eqI iffI)
      fix x assume "x \<in> {0 ..< int (length (spec_ids a))}"
      then have "nat x \<in> {..< length (spec_ids a)}" "x = int (nat x)" by auto
      then show "x \<in> int ` {..< length (spec_ids a)}" by (rule image_eqI[rotated])
    qed auto
    then show ?thesis by (auto simp: named_groups_dom)
  qed
  have 3: "\<forall>k < length (spec_ids a).
      children ?c (getClusterName (int k)) = Some (masked_group a b (spec_ids a ! k))"
    using named_groups_nth[of _ "spec_ids a" a b 0] by simp
  show ?thesis
    using 1 2 3 spec_ids_sorted[of a] spec_ids_set[of a] unique_position[of _ a] by blast
qed

theorem partition_groups_witness:
  "[2, 0, 2, 5 :: int] \<noteq> []
   \<and> list_all (\<lambda>(f, arr). size_of arr = length [2, 0, 2, 5 :: int])
        [(''loc_id'', \<lparr>dtype = ''int64'', elems = [10, 11, 12, 13 :: int]\<rparr>),
         (''frame'', \<lparr>dtype = ''int64'', elems = [0, 0, 1, 1]\<rparr>)]
   \<and> distinct (map fst [(''loc_id'', \<lparr>dtype = ''int64'', elems = [10, 11, 12, 13 :: int]\<rparr>),
                          (''frame'', \<lparr>dtype = ''int64'', elems = [0, 0, 1, 1]\<rparr>)])
   \<and> is_int64 (Max (set [2, 0, 2, 5]) + 1)
   \<and> (\<exists>c. addClusters \<lparr>clusters = None\<rparr> [2, 0, 2, 5]
              [(''loc_id'', \<lparr>dtype = ''int64'', elems = [10, 11, 12, 13 :: int]\<rparr>),
               (''frame'', \<lparr>dtype = ''int64'', elems = [0, 0, 1, 1]\<rparr>)]
            = (Inr (), \<lparr>clusters = Some c\<rparr>)
          \<and> children c ''cl_1''
            = Some \<lparr>datasets = [(''frame'', \<lparr>dtype = ''int64'', elems = [0, 1]\<rparr>),
                                (''loc_id'', \<lparr>dtype = ''int64'', elems = [10, 12]\<rparr>)],
                    cl_size_attr = Some 2\<rparr>)"
proof -
  let ?a = "[2, 0, 2, 5 :: int]"
  let ?b = "[(''loc_id'', \<lparr>dtype = ''int64'', elems = [10, 11, 12, 13 :: int]\<rparr>),
             (''frame'', \<lparr>dtype = ''int64'', elems = [0, 0, 1, 1]\<rparr>)]"
  have ids: "spec_ids ?a = [0, 2, 5]" by (simp add: spec_ids_def upto_rec1)
  have nm: "getClusterName (int 1) = ''cl_1''"
    by (simp add: getClusterName_def str_int_def str_nat.simps)
  have mg: "masked_group ?a ?b 2
    = \<lparr>datasets = [(''frame'', \<lparr>dtype = ''int64'', elems = [0, 1]\<rparr>),
                   (''loc_id'', \<lparr>dtype = ''int64'', elems = [10, 12]\<rparr>)],
       cl_size_attr = Some 2\<rparr>"
    by (simp add: masked_group_def nths_Cons)
  have h1: "?a \<noteq> []" by simp
  have h2: "\<forall>(f, arr) \<in> set ?b. size_of arr = length ?a" by (simp add: size_of_def)
  have h3: "distinct (map fst ?b)" by simp
  have h4: "is_int64 (Max (set ?a) + 1)" by (simp add: is_int64_def)
  from partition_groups[OF h1 h2 h3 h4, of "\<lparr>clusters = None\<rparr>"]
  obtain c where c: "addClusters \<lparr>clusters = None\<rparr> ?a ?b = (Inr (), \<lparr>clusters = Some c\<rparr>)"
    and g: "\<forall>k < length (spec_ids ?a).
           children c (getClusterName (int k)) = Some (masked_group ?a ?b (spec_ids ?a ! k))"
    by auto
  have "children c (getClusterName (int 1)) = Some (masked_group ?a ?b (spec_ids ?a ! 1))"
    using g[rule_format, of 1] unfolding ids by simp
  then have "children c ''cl_1'' = Some (masked_group ?a ?b 2)"
    unfolding nm ids by simp
  with c h1 h2 h3 h4 mg show ?thesis by (auto simp: size_of_def)
qed

theorem partition_groups_counterexample:
  "addClusters \<lparr>clusters = None\<rparr> [9223372036854775807]
     [(''loc_id'', \<lparr>dtype = ''int64'', elems = [10 :: int]\<rparr>)]
   = (Inr (), \<lparr>clusters = Some \<lparr>children = Map.empty, n_clusters_attr = Some (- 1),
                                    info_attr = None\<rparr>\<rparr>)"
  by (simp add: addClusters_def hasClusters_def size_of_def amin_def amax_def wrap64_def
      empty_clusters_grp_def)

text \<open>
  Claim C4, as amended. After \<open>addClusters\<close> on a non-empty assignment \<open>a\<close> whose greatest
  id is below \<open>2 ^ 63 - 1\<close> and a conforming bundle, \<open>getNClusters\<close> returns the number
  of distinct ids of \<open>a\<close> minus one. With the id \<open>2 ^ 63 - 1\<close> in \<open>a\<close> the loop does not
  run and the count written is \<open>- 1\<close>.
\<close>

theorem cluster_count:
  assumes "a \<noteq> []" and "\<forall>(f, arr) \<in> set b. size_of arr = length a"
    and "distinct (map fst b)" and "is_int64 (Max (set a) + 1)"
  shows "fst (addClusters h a b) = Inr ()
     \<and> getNClusters (snd (addClusters h a b)) = Inr (int (card (set a)) - 1)"
  by (simp add: addClusters_ok[OF assms] getNClusters_def getClusters_def spec_ids_length)

theorem cluster_count_witness:
  "[2, 0, 2, 5 :: int] \<noteq> []
   \<and> list_all (\<lambda>(f, arr). size_of arr = length [2, 0, 2, 5 :: int])
        [(''loc_id'', \<lparr>dtype = ''int64'', elems = [10, 11, 12, 13 :: int]\<rparr>)]
   \<and> distinct (map fst [(''loc_id'', \<lparr>dtype = ''int64'', elems = [10, 11, 12, 13 :: int]\<rparr>)])
   \<and> is_int64 (Max (set [2, 0, 2, 5]) + 1)
   \<and> getNClusters (snd (addClusters \<lparr>clusters = None\<rparr> [2, 0, 2, 5]
              [(''loc_id'', \<lparr>dtype = ''int64'', elems = [10, 11, 12, 13 :: int]\<rparr>)])) = Inr 2"
proof -
  let ?a = "[2, 0, 2, 5 :: int]"
  let ?b = "[(''loc_id'', \<lparr>dtype = ''int64'', elems = [10, 11, 12, 13 :: int]\<rparr>)]"
  have h1: "?a \<noteq> []" by simp
  have h2: "\<forall>(f, arr) \<in> set ?b. size_of arr = length ?a" by (simp add: size_of_def)
  have h3: "distinct (map fst ?b)" by simp
  have h4: "is_int64 (Max (set ?a) + 1)" by (simp add: is_int64_def)
  have "getNClusters (snd (addClusters \<lparr>clusters = None\<rparr> ?a ?b)) = Inr (int (card (set ?a)) - 1)"
    using cluster_count[OF h1 h2 h3 h4, of "\<lparr>clusters = None\<rparr>"] by (rule conjunct2)
  then have "getNClusters (snd (addClusters \<lparr>clusters = None\<rparr> ?a ?b)) = Inr 2"
    by (simp add: card_insert_if)
  with h1 h2 h3 h4 show ?thesis by (simp add: size_of_def)
qed

theorem cluster_count_counterexample:
  "fst (addClusters \<lparr>clusters = None\<rparr> [0, 9223372036854775807]
          [(''loc_id'', \<lparr>dtype = ''int64'', elems = [10, 11 :: int]\<rparr>)]) = Inr ()
   \<and> getNClusters (snd (addClusters \<lparr>clusters = None\<rparr> [0, 9223372036854775807]
          [(''loc_id'', \<lparr>dtype = ''int64'', elems = [10, 11 :: int]\<rparr>)])) = Inr (- 1)
   \<and> int (card (set [0, 9223372036854775807 :: int])) - 1 = 1"
  by (simp add: addClusters_def hasClusters_def size_of_def amin_def amax_def wrap64_def
      empty_clusters_grp_def getNClusters_def getClusters_def)

text \<open>
  Claim C10, as amended. After \<open>addClusters\<close> on a non-empty assignment whose greatest id
  is below \<open>2 ^ 63 - 1\<close> and a conforming bundle, the group \<open>cl_0\<close> exists, belongs to the
  least id, which at least one record carries, so its \<open>cl_size\<close> is positive and each of
  its datasets has that many elements; the names of the groups of the container are
  exactly \<open>cl_0\<close>, ..., \<open>cl_n\<close> for the \<open>n\<close> that \<open>getNClusters\<close> returns, and these are
  \<open>n + 1\<close> different groups. With the id \<open>2 ^ 63 - 1\<close> in the assignment the call
  returns normally and there is no group \<open>cl_0\<close>.
\<close>

theorem unclustered_group_dense:
  assumes "a \<noteq> []" and "\<forall>(f, arr) \<in> set b. size_of arr = length a"
    and "distinct (map fst b)" and "is_int64 (Max (set a) + 1)"
  shows "\<exists>c g n. addClusters h a b = (Inr (), h\<lparr>clusters := Some c\<rparr>)
     \<and> getNClusters (h\<lparr>clusters := Some c\<rparr>) = Inr n
     \<and> children c (getClusterName 0) = Some g
     \<and> cl_size_attr g = Some (int (count_list a (Min (set a))))
     \<and> 0 < count_list a (Min (set a))
     \<and> (\<forall>(f, arr) \<in> set (datasets g). size_of arr = count_list a (Min (set a)))
     \<and> 0 \<le> n
     \<and> dom (children c) = getClusterName ` {0..n}
     \<and> card (dom (children c)) = nat (n + 1)"
proof -
  let ?ids = "spec_ids a"
  let ?c = "\<lparr>children = map_of (named_groups a b 0 ?ids),
        n_clusters_attr = Some (int (length ?ids) - 1),
        info_attr = None\<rparr>"
  let ?g = "masked_group a b (Min (set a))"
  let ?n = "int (length ?ids) - 1"
  have pos: "0 < length ?ids" using assms(1) by (simp add: spec_ids_length card_gt_0_iff)
  have 1: "addClusters h a b = (Inr (), h\<lparr>clusters := Some ?c\<rparr>)"
    by (rule addClusters_ok[OF assms])
  have 2: "getNClusters (h\<lparr>clusters := Some ?c\<rparr>) = Inr ?n"
    by (simp add: getNClusters_def getClusters_def)
  have 3: "children ?c (getClusterName 0) = Some ?g"
    using named_groups_nth[OF pos, of a b 0] spec_ids_hd[OF assms(1)] by simp
  have 4: "cl_size_attr ?g = Some (int (count_list a (Min (set a))))"
    by (simp add: masked_group_def)
  have 5: "0 < count_list a (Min (set a))"
    using assms(1) count_list_0_iff[of a "Min (set a)"] by (simp add: Min_in)
  have 6: "\<forall>(f, arr) \<in> set (datasets ?g). size_of arr = count_list a (Min (set a))"
    using assms(2) by (auto simp: masked_group_def size_of_def length_masked)
  have 7: "0 \<le> ?n" using pos by simp
  have r: "{0 ..< int (length ?ids)} = {0 .. ?n}" by auto
  have 8: "dom (children ?c) = getClusterName ` {0 .. ?n}"
    by (simp add: named_groups_dom r)
  have inj: "inj_on getClusterName {0 .. ?n}"
    by (rule inj_onI) (rule getClusterName_inj)
  have 9: "card (dom (children ?c)) = nat (?n + 1)"
    unfolding 8 card_image[OF inj] by simp
  show ?thesis using 1 2 3 4 5 6 7 8 9 by blast
qed

theorem unclustered_group_dense_witness:
  "[2, 0, 2, 5 :: int] \<noteq> []
   \<and> list_all (\<lambda>(f, arr). size_of arr = length [2, 0, 2, 5 :: int])
        [(''loc_id'', \<lparr>dtype = ''int64'', elems = [10, 11, 12, 13 :: int]\<rparr>)]
   \<and> distinct (map fst [(''loc_id'', \<lparr>dtype = ''int64'', elems = [10, 11, 12, 13 :: int]\<rparr>)])
   \<and> is_int64 (Max (set [2, 0, 2, 5]) + 1)
   \<and> (\<exists>c g. addClusters \<lparr>clusters = None\<rparr> [2, 0, 2, 5]
              [(''loc_id'', \<lparr>dtype = ''int64'', elems = [10, 11, 12, 13 :: int]\<rparr>)]
            = (Inr (), \<lparr>clusters = Some c\<rparr>)
          \<and> children c (getClusterName 0) = Some g
          \<and> cl_size_attr g = Some 1
          \<and> card (dom (children c)) = 3)"
proof -
  let ?a = "[2, 0, 2, 5 :: int]"
  let ?b = "[(''loc_id'', \<lparr>dtype = ''int64'', elems = [10, 11, 12, 13 :: int]\<rparr>)]"
  have h1: "?a \<noteq> []" by simp
  have h2: "\<forall>(f, arr) \<in> set ?b. size_of arr = length ?a" by (simp add: size_of_def)
  have h3: "distinct (map fst ?b)" by simp
  have h4: "is_int64 (Max (set ?a) + 1)" by (simp add: is_int64_def)
  from unclustered_group_dense[OF h1 h2 h3 h4, of "\<lparr>clusters = None\<rparr>"]
  obtain c g n where c: "addClusters \<lparr>clusters = None\<rparr> ?a ?b = (Inr (), \<lparr>clusters = Some c\<rparr>)"
    and n: "getNClusters \<lparr>clusters = Some c\<rparr> = Inr n"
    and g: "children c (getClusterName 0) = Some g"
    and sz: "cl_size_attr g = Some (int (count_list ?a (Min (set ?a))))"
    and cd: "card (dom (children c)) = nat (n + 1)"
    by auto
  have "snd (addClusters \<lparr>clusters = None\<rparr> ?a ?b) = \<lparr>clusters = Some c\<rparr>" using c by simp
  then have "getNClusters \<lparr>clusters = Some c\<rparr> = Inr (int (card (set ?a)) - 1)"
    using addClusters_ok[OF h1 h2 h3 h4, of "\<lparr>clusters = None\<rparr>"]
    by (auto simp: getNClusters_def getClusters_def spec_ids_length)
  with n have "n = 2" by (simp add: card_insert_if)
  with c g sz cd h1 h2 h3 h4 show ?thesis by (auto simp: size_of_def)
qed

theorem unclustered_group_dense_counterexample:
  "fst (addClusters \<lparr>clusters = None\<rparr> [3, 9223372036854775807]
          [(''loc_id'', \<lparr>dtype = ''int64'', elems = [10, 11 :: int]\<rparr>)]) = Inr ()
   \<and> getClusterGroup (snd (addClusters \<lparr>clusters = None\<rparr> [3, 9223372036854775807]
          [(''loc_id'', \<lparr>dtype = ''int64'', elems = [10, 11 :: int]\<rparr>)])) 0 = Inr None"
  by (simp add: addClusters_def hasClusters_def size_of_def amin_def amax_def wrap64_def
      empty_clusters_grp_def getClusterGroup_def getClusters_def)

section \<open>\<open>addClusters\<close> on ill-formed input\<close>

text \<open>
  Claim C3, as amended. \<open>addClusters\<close> replaces the container by an empty one before it
  looks at its arguments. When a field of the bundle has the wrong size, the call raises
  \<open>AssertionError\<close> with the message \<open>Incorrect size for data\<close> followed by the name of
  the first such field; when all sizes agree and the assignment is empty, \<open>numpy.amin\<close>
  raises \<open>ValueError\<close>. In both cases no group has been written, and the file holds the
  new, empty container: the container that was there before the call is lost.
\<close>

theorem failed_partition:
  "(find (\<lambda>(f, arr). size_of arr \<noteq> length a) b = Some (f, arr) \<longrightarrow>
      addClusters h a b =
        (Inl (AssertionError (''Incorrect size for data '' @ f)),
         h\<lparr>clusters := Some empty_clusters_grp\<rparr>))
   \<and> (find (\<lambda>(f, arr). size_of arr \<noteq> length a) b = None \<and> a = [] \<longrightarrow>
      addClusters h a b = (Inl ValueError, h\<lparr>clusters := Some empty_clusters_grp\<rparr>))"
  by (auto simp: addClusters_def check_sizes_find_None check_sizes_find_Some amin_def
      hasClusters_def Let_def)

theorem failed_partition_witness:
  "addClusters
     \<lparr>clusters = Some \<lparr>children = [''cl_0'' \<mapsto> \<lparr>datasets = [], cl_size_attr = Some 2\<rparr>],
                        n_clusters_attr = Some 0, info_attr = Some ''dbscan''\<rparr>\<rparr>
     [1, 2] [(''loc_id'', \<lparr>dtype = ''int64'', elems = [0, 1 :: int]\<rparr>),
             (''x'', \<lparr>dtype = ''float64'', elems = [7]\<rparr>)]
   = (Inl (AssertionError ''Incorrect size for data x''), \<lparr>clusters = Some empty_clusters_grp\<rparr>)
   \<and> addClusters
     \<lparr>clusters = Some \<lparr>children = [''cl_0'' \<mapsto> \<lparr>datasets = [], cl_size_attr = Some 2\<rparr>],
                        n_clusters_attr = Some 0, info_attr = Some ''dbscan''\<rparr>\<rparr>
     [] [(''x'', \<lparr>dtype = ''float64'', elems = [] :: int list\<rparr>)]
   = (Inl ValueError, \<lparr>clusters = Some empty_clusters_grp\<rparr>)"
  using failed_partition[of "[1, 2]" "[(''loc_id'', \<lparr>dtype = ''int64'', elems = [0, 1 :: int]\<rparr>),
             (''x'', \<lparr>dtype = ''float64'', elems = [7]\<rparr>)]" "''x''"
           "\<lparr>dtype = ''float64'', elems = [7]\<rparr>"
           "\<lparr>clusters = Some \<lparr>children = [''cl_0'' \<mapsto> \<lparr>datasets = [], cl_size_attr = Some 2\<rparr>],
                        n_clusters_attr = Some 0, info_attr = Some ''dbscan''\<rparr>\<rparr>"]
    failed_partition[of "[]" "[(''x'', \<lparr>dtype = ''float64'', elems = [] :: int list\<rparr>)]" _ _
           "\<lparr>clusters = Some \<lparr>children = [''cl_0'' \<mapsto> \<lparr>datasets = [], cl_size_attr = Some 2\<rparr>],
                        n_clusters_attr = Some 0, info_attr = Some ''dbscan''\<rparr>\<rparr>"]
  by (simp add: size_of_def)

theorem failed_partition_counterexample:
  "fst (addClusters
     \<lparr>clusters = Some \<lparr>children = [''cl_0'' \<mapsto> \<lparr>datasets = [], cl_size_attr = Some 2\<rparr>],
                        n_clusters_attr = Some 0, info_attr = Some ''dbscan''\<rparr>\<rparr>
     [1, 2] [(''x'', \<lparr>dtype = ''float64'', elems = [7 :: int]\<rparr>)])
   = Inl (AssertionError ''Incorrect size for data x'')
   \<and> snd (addClusters
     \<lparr>clusters = Some \<lparr>children = [''cl_0'' \<mapsto> \<lparr>datasets = [], cl_size_attr = Some 2\<rparr>],
                        n_clusters_attr = Some 0, info_attr = Some ''dbscan''\<rparr>\<rparr>
     [1, 2] [(''x'', \<lparr>dtype = ''float64'', elems = [7 :: int]\<rparr>)])
   \<noteq> \<lparr>clusters = Some \<lparr>children = [''cl_0'' \<mapsto> \<lparr>datasets = [], cl_size_attr = Some 2\<rparr>],
                        n_clusters_attr = Some 0, info_attr = Some ''dbscan''\<rparr>\<rparr>
   \<and> getNClusters (snd (addClusters
     \<lparr>clusters = Some \<lparr>children = [''cl_0'' \<mapsto> \<lparr>datasets = [], cl_size_attr = Some 2\<rparr>],
                        n_clusters_attr = Some 0, info_attr = Some ''dbscan''\<rparr>\<rparr>
     [1, 2] [(''x'', \<lparr>dtype = ''float64'', elems = [7 :: int]\<rparr>)]))
   = Inl (KeyError ''n_clusters'')
   \<and> snd (addClusters
     \<lparr>clusters = Some \<lparr>children = [''cl_0'' \<mapsto> \<lparr>datasets = [] :: (string, int) pydict, cl_size_attr = Some 2\<rparr>],
                        n_clusters_attr = Some 0, info_attr = Some ''dbscan''\<rparr>\<rparr>
     [] [])
   \<noteq> \<lparr>clusters = Some \<lparr>children = [''cl_0'' \<mapsto> \<lparr>datasets = [], cl_size_attr = Some 2\<rparr>],
                        n_clusters_attr = Some 0, info_attr = Some ''dbscan''\<rparr>\<rparr>"
  by (simp add: addClusters_def hasClusters_def size_of_def amin_def empty_clusters_grp_def
      getNClusters_def getClusters_def)

section \<open>Lookups in the container\<close>

text \<open>
  Claim C6, as amended. When the container exists, \<open>getClusterGroup\<close> returns the group
  of that name if there is one and \<open>None\<close> otherwise, so \<open>None\<close> for every index outside
  \<open>0..n\<close> when the groups are \<open>cl_0\<close>, ..., \<open>cl_n\<close>. When the container does not exist,
  \<open>self.hdf5["clusters"]\<close> raises \<open>KeyError\<close>.
\<close>

theorem cluster_group_lookup:
  "(clusters h = Some c \<longrightarrow>
      getClusterGroup h index = Inr (children c (getClusterName index))
      \<and> (dom (children c) = getClusterName ` {0..n} \<and> (index < 0 \<or> n < index) \<longrightarrow>
           getClusterGroup h index = Inr None))
   \<and> (clusters h = None \<longrightarrow> getClusterGroup h index = Inl (KeyError ''clusters''))"
proof -
  have "children c (getClusterName index) = None"
    if "dom (children c) = getClusterName ` {0..n}" "index < 0 \<or> n < index"
  proof -
    have "getClusterName index \<notin> getClusterName ` {0..n}"
      using that(2) by (auto dest: getClusterName_inj)
    with that(1) show ?thesis by blast
  qed
  then show ?thesis
    by (auto simp: getClusterGroup_def getClusters_def Let_def)
qed

theorem cluster_group_lookup_witness:
  "getClusterGroup
     \<lparr>clusters = Some \<lparr>children = [''cl_0'' \<mapsto> \<lparr>datasets = [] :: (string, int) pydict, cl_size_attr = Some 2\<rparr>],
                        n_clusters_attr = Some 0, info_attr = None\<rparr>\<rparr> 5 = Inr None
   \<and> getClusterGroup
     \<lparr>clusters = Some \<lparr>children = [''cl_0'' \<mapsto> \<lparr>datasets = [] :: (string, int) pydict, cl_size_attr = Some 2\<rparr>],
                        n_clusters_attr = Some 0, info_attr = None\<rparr>\<rparr> 0
     = Inr (Some \<lparr>datasets = [], cl_size_attr = Some 2\<rparr>)
   \<and> getClusterGroup (\<lparr>clusters = None\<rparr> :: (string, int) sa_h5) 5 = Inl (KeyError ''clusters'')"
proof -
  let ?c = "\<lparr>children = [''cl_0'' \<mapsto> \<lparr>datasets = [] :: (string, int) pydict, cl_size_attr = Some 2\<rparr>],
                        n_clusters_attr = Some 0, info_attr = None\<rparr>"
  have nm: "getClusterName 0 = ''cl_0''"
    by (simp add: getClusterName_def str_int_def str_nat.simps)
  have d: "dom (children ?c) = getClusterName ` {0..0}" by (simp add: nm)
  have r: "dom (children ?c) = getClusterName ` {0..0} \<and> ((5 :: int) < 0 \<or> 0 < (5 :: int))"
    using d by simp
  have s: "clusters \<lparr>clusters = Some ?c\<rparr> = Some ?c" by simp
  have a: "getClusterGroup \<lparr>clusters = Some ?c\<rparr> 5 = Inr None"
    using cluster_group_lookup[of "\<lparr>clusters = Some ?c\<rparr>" ?c 5 0] r s by blast
  have b: "getClusterGroup \<lparr>clusters = Some ?c\<rparr> 0 = Inr (Some \<lparr>datasets = [], cl_size_attr = Some 2\<rparr>)"
    using cluster_group_lookup[of "\<lparr>clusters = Some ?c\<rparr>" ?c 0 0] by (simp add: nm)
  have c: "getClusterGroup (\<lparr>clusters = None\<rparr> :: (string, int) sa_h5) 5 = Inl (KeyError ''clusters'')"
    using cluster_group_lookup[of "\<lparr>clusters = None\<rparr> :: (string, int) sa_h5" _ 5] by simp
  from a b c show ?thesis by simp
qed

theorem cluster_group_lookup_counterexample:
  "getClusterGroup (\<lparr>clusters = None\<rparr> :: (string, int) sa_h5) 0 = Inl (KeyError ''clusters'')"
  by (simp add: getClusterGroup_def getClusters_def)

text \<open>
  Claim C9, as amended. The description is the attribute \<open>info\<close> of the container. When
  the container exists, \<open>setClusteringInfo\<close> stores the text and changes nothing else, and
  \<open>getClusteringInfo\<close> returns it afterwards; \<open>getClusteringInfo\<close> raises \<open>KeyError\<close>
  while no description is stored. When the container does not exist, both raise
  \<open>KeyError\<close>.
\<close>

theorem clustering_info:
  "(clusters h = Some c \<longrightarrow>
      setClusteringInfo h info = (Inr (), h\<lparr>clusters := Some (c\<lparr>info_attr := Some info\<rparr>)\<rparr>)
      \<and> getClusteringInfo (snd (setClusteringInfo h info)) = Inr info
      \<and> (info_attr c = None \<longrightarrow> getClusteringInfo h = Inl (KeyError ''info'')))
   \<and> (clusters h = None \<longrightarrow>
      setClusteringInfo h info = (Inl (KeyError ''clusters''), h)
      \<and> getClusteringInfo h = Inl (KeyError ''clusters''))"
  by (auto simp: setClusteringInfo_def getClusteringInfo_def getClusters_def rbind_def)

theorem clustering_info_witness:
  "getClusteringInfo (snd (setClusteringInfo
      (\<lparr>clusters = Some empty_clusters_grp\<rparr> :: (string, int) sa_h5) ''dbscan'')) = Inr ''dbscan''
   \<and> getClusteringInfo (\<lparr>clusters = Some empty_clusters_grp\<rparr> :: (string, int) sa_h5)
       = Inl (KeyError ''info'')
   \<and> setClusteringInfo (\<lparr>clusters = None\<rparr> :: (string, int) sa_h5) ''dbscan''
       = (Inl (KeyError ''clusters''), \<lparr>clusters = None\<rparr>)"
proof -
  let ?h = "\<lparr>clusters = Some empty_clusters_grp\<rparr> :: (string, int) sa_h5"
  let ?e = "\<lparr>clusters = None\<rparr> :: (string, int) sa_h5"
  have 1: "clusters ?h = Some empty_clusters_grp" by simp
  have 2: "info_attr (empty_clusters_grp :: (string, int) clusters_grp) = None"
    by (simp add: empty_clusters_grp_def)
  have 3: "clusters ?e = None" by simp
  show ?thesis
    using clustering_info[of ?h empty_clusters_grp "''dbscan''"]
      clustering_info[of ?e empty_clusters_grp "''dbscan''"] 1 2 3
    by blast
qed

theorem clustering_info_counterexample:
  "setClusteringInfo (\<lparr>clusters = None\<rparr> :: (string, int) sa_h5) ''dbscan''
     = (Inl (KeyError ''clusters''), \<lparr>clusters = None\<rparr>)
   \<and> getClusteringInfo (\<lparr>clusters = None\<rparr> :: (string, int) sa_h5) = Inl (KeyError ''clusters'')"
  by (simp add: setClusteringInfo_def getClusteringInfo_def getClusters_def rbind_def)

section \<open>\<open>getClusterData\<close> on groups without members\<close>

lemma nms: "getClusterName 0 = ''cl_0''" "getClusterName 1 = ''cl_1''"
  "getClusterName 2 = ''cl_2''" "getClusterName 3 = ''cl_3''"
  by (simp_all add: getClusterName_def str_int_def str_nat.simps)

lemma update_fresh: "k \<notin> fst ` set ys \<Longrightarrow> AList.update k v ys = ys @ [(k, v)]"
  by (induction ys) auto

lemma fold_update_fresh:
  "distinct (map fst xs) \<Longrightarrow> fst ` set xs \<inter> fst ` set ys = {} \<Longrightarrow>
   fold (\<lambda>(k, v) d. AList.update k v d) xs ys = ys @ xs"
proof (induction xs arbitrary: ys)
  case Nil
  then show ?case by simp
next
  case (Cons kv xs)
  obtain k v where kv: "kv = (k, v)" by (cases kv)
  have fr: "k \<notin> fst ` set ys" using Cons.prems(2) kv by auto
  have d: "distinct (map fst xs)" using Cons.prems(1) by simp
  have dj: "fst ` set xs \<inter> fst ` set (ys @ [(k, v)]) = {}"
    using Cons.prems kv by auto
  show ?case
    unfolding kv by (simp add: update_fresh[OF fr] Cons.IH[OF d dj])
qed

lemma getCluster_distinct:
  "distinct (map fst (datasets g)) \<Longrightarrow> getCluster (Some g) = Inr (datasets g)"
  by (simp add: getCluster_def fold_update_fresh)

lemma merge_fields_empty:
  "distinct (map fst cl_dict) \<Longrightarrow> merge_fields [] cl_dict = cl_dict"
  by (simp add: merge_fields_def fold_update_fresh)

lemma getClusterGroup_Some:
  "clusters h = Some c \<Longrightarrow> getClusterGroup h index = Inr (children c (getClusterName index))"
  by (auto simp: getClusterGroup_def getClusters_def Let_def)

text \<open>
  Claim C7, as amended. \<open>getClusterData\<close> returns the empty dict when the group exists
  and has no dataset. When the group exists, has datasets, and its array of group
  numbers (\<open>frame\<close>, or \<open>track_id\<close> when there is no \<open>frame\<close>) is empty, no lookup is made
  and the result is the stored cross-reference fields themselves. When the container
  does not exist the call raises \<open>KeyError\<close>.
\<close>

theorem cluster_data_empty:
  "(clusters h = Some c \<and> children c (getClusterName index) = Some g \<and> datasets g = [] \<longrightarrow>
      getClusterData np rs h index fields' = Inr [])
   \<and> (clusters h = Some c \<and> children c (getClusterName index) = Some g
        \<and> distinct (map fst (datasets g))
        \<and> map_of (datasets g) (if dict_has (datasets g) ''frame'' then ''frame'' else ''track_id'')
            = Some ids
        \<and> size_of ids = 0 \<longrightarrow>
      getClusterData np rs h index fields' = Inr (datasets g))
   \<and> (clusters h = None \<longrightarrow> getClusterData np rs h index fields' = Inl (KeyError ''clusters''))"
proof (intro conjI impI)
  assume a: "clusters h = Some c \<and> children c (getClusterName index) = Some g \<and> datasets g = []"
  then show "getClusterData np rs h index fields' = Inr []"
    by (simp add: getClusterData_def getClusterGroup_Some rbind_def getCluster_def)
next
  assume a: "clusters h = Some c \<and> children c (getClusterName index) = Some g
        \<and> distinct (map fst (datasets g))
        \<and> map_of (datasets g) (if dict_has (datasets g) ''frame'' then ''frame'' else ''track_id'')
            = Some ids
        \<and> size_of ids = 0"
  then have ne: "datasets g \<noteq> []" by auto
  show "getClusterData np rs h index fields' = Inr (datasets g)"
  proof (cases "dict_has (datasets g) ''frame''")
    case True
    with a ne show ?thesis
      by (simp add: getClusterData_def getClusterGroup_Some rbind_def getCluster_distinct
          dict_get_def merge_fields_empty)
  next
    case False
    with a ne show ?thesis
      by (simp add: getClusterData_def getClusterGroup_Some rbind_def getCluster_distinct
          dict_get_def merge_fields_empty)
  qed
next
  assume "clusters h = None"
  then show "getClusterData np rs h index fields' = Inl (KeyError ''clusters'')"
    by (simp add: getClusterData_def getClusterGroup_def getClusters_def rbind_def)
qed

theorem cluster_data_empty_witness:
  "getClusterData example_np example_store
       \<lparr>clusters = Some \<lparr>children = [''cl_0'' \<mapsto> \<lparr>datasets = [], cl_size_attr = Some 3\<rparr>],
          n_clusters_attr = Some 0, info_attr = None\<rparr>\<rparr> 0 None = Inr []
   \<and> getClusterData example_np example_store
       \<lparr>clusters = Some \<lparr>children =
           [''cl_0'' \<mapsto> \<lparr>datasets = [(''loc_id'', \<lparr>dtype = ''int64'', elems = []\<rparr>),
                                     (''track_id'', \<lparr>dtype = ''int64'', elems = []\<rparr>)],
                         cl_size_attr = Some 0\<rparr>],
          n_clusters_attr = Some (- 1), info_attr = None\<rparr>\<rparr> 0 None
     = Inr [(''loc_id'', \<lparr>dtype = ''int64'', elems = []\<rparr>),
            (''track_id'', \<lparr>dtype = ''int64'', elems = []\<rparr>)]
   \<and> getClusterData example_np example_store \<lparr>clusters = None\<rparr> 7 None
     = Inl (KeyError ''clusters'')"
proof -
  let ?g1 = "\<lparr>datasets = [] :: (string, int) pydict, cl_size_attr = Some 3\<rparr>"
  let ?c1 = "\<lparr>children = [''cl_0'' \<mapsto> ?g1], n_clusters_attr = Some 0, info_attr = None\<rparr>"
  let ?g2 = "\<lparr>datasets = [(''loc_id'', \<lparr>dtype = ''int64'', elems = [] :: int list\<rparr>),
                             (''track_id'', \<lparr>dtype = ''int64'', elems = []\<rparr>)],
             cl_size_attr = Some 0\<rparr>"
  let ?c2 = "\<lparr>children = [''cl_0'' \<mapsto> ?g2], n_clusters_attr = Some (- 1), info_attr = None\<rparr>"
  have p1: "clusters \<lparr>clusters = Some ?c1\<rparr> = Some ?c1 \<and> children ?c1 (getClusterName 0) = Some ?g1
      \<and> datasets ?g1 = []"
    by (simp add: nms)
  have p2: "clusters \<lparr>clusters = Some ?c2\<rparr> = Some ?c2 \<and> children ?c2 (getClusterName 0) = Some ?g2
        \<and> distinct (map fst (datasets ?g2))
        \<and> map_of (datasets ?g2) (if dict_has (datasets ?g2) ''frame'' then ''frame'' else ''track_id'')
            = Some \<lparr>dtype = ''int64'', elems = []\<rparr>
        \<and> size_of \<lparr>dtype = ''int64'', elems = [] :: int list\<rparr> = 0"
    by (simp add: nms dict_has_def size_of_def)
  have p3: "clusters (\<lparr>clusters = None\<rparr> :: (string, int) sa_h5) = None" by simp
  have d2: "datasets ?g2 = [(''loc_id'', \<lparr>dtype = ''int64'', elems = []\<rparr>),
            (''track_id'', \<lparr>dtype = ''int64'', elems = []\<rparr>)]" by simp
  have r1: "getClusterData example_np example_store \<lparr>clusters = Some ?c1\<rparr> 0 None = Inr []"
    using cluster_data_empty[where h = "\<lparr>clusters = Some ?c1\<rparr>" and c = ?c1 and index = 0
        and g = ?g1 and np = example_np and rs = example_store and fields' = None] p1
    by blast
  have r2: "getClusterData example_np example_store \<lparr>clusters = Some ?c2\<rparr> 0 None
      = Inr (datasets ?g2)"
    using cluster_data_empty[where h = "\<lparr>clusters = Some ?c2\<rparr>" and c = ?c2 and index = 0
        and g = ?g2 and ids = "\<lparr>dtype = ''int64'', elems = []\<rparr>"
        and np = example_np and rs = example_store and fields' = None] p2
    by blast
  have r3: "getClusterData example_np example_store \<lparr>clusters = None\<rparr> 7 None
      = Inl (KeyError ''clusters'')"
    using cluster_data_empty[where h = "\<lparr>clusters = None\<rparr> :: (string, int) sa_h5" and index = 7
        and np = example_np and rs = example_store and fields' = None] p3
    by blast
  from r1 r2 r3 show ?thesis by simp
qed

theorem cluster_data_empty_counterexample:
  "getClusterData example_np example_store \<lparr>clusters = None\<rparr> 0 None = Inl (KeyError ''clusters'')
   \<and> getClusterData example_np example_store
       \<lparr>clusters = Some \<lparr>children =
           [''cl_0'' \<mapsto> \<lparr>datasets = [(''frame'', \<lparr>dtype = ''int64'', elems = []\<rparr>),
                                     (''loc_id'', \<lparr>dtype = ''int64'', elems = []\<rparr>)],
                         cl_size_attr = Some 0\<rparr>],
          n_clusters_attr = Some (- 1), info_attr = None\<rparr>\<rparr> 0 None
     = Inr [(''frame'', \<lparr>dtype = ''int64'', elems = []\<rparr>),
            (''loc_id'', \<lparr>dtype = ''int64'', elems = []\<rparr>)]"
  by (simp add: getClusterData_def getClusterGroup_def getClusters_def rbind_def
      getClusterName_def str_int_def str_nat.simps getCluster_def dict_has_def dict_get_def
      size_of_def merge_fields_def)

text \<open>
  For an index without a group in an existing container, \<open>getClusterGroup\<close> returns
  \<open>None\<close> and the loop of \<open>getCluster\<close> over it raises.
\<close>

lemma missing_group_raises:
  "clusters h = Some c \<Longrightarrow> children c (getClusterName index) = None \<Longrightarrow>
   getClusterData np rs h index fields' = Inl TypeError"
  by (simp add: getClusterData_def getClusterGroup_Some rbind_def getCluster_def)

section \<open>\<open>clustersIterator\<close>\<close>

lemma iter_loop_spec:
  assumes c: "clusters h = Some c"
  shows "\<forall>i \<in> set cand. \<exists>sz. stored_size c i = Some sz \<Longrightarrow>
    iter_loop np rs h fields' min_size cand =
      yield_all (map (\<lambda>i. (i, getClusterData np rs h i fields'))
                   (filter (size_exceeds c min_size) cand))"
proof (induction cand)
  case Nil
  then show ?case by simp
next
  case (Cons i cand)
  from Cons.prems obtain sz where sz: "stored_size c i = Some sz" by auto
  then obtain g where g: "children c (getClusterName i) = Some g" "cl_size_attr g = Some sz"
    by (auto simp: stored_size_def split: option.splits)
  have IH: "iter_loop np rs h fields' min_size cand =
      yield_all (map (\<lambda>i. (i, getClusterData np rs h i fields'))
                   (filter (size_exceeds c min_size) cand))"
    using Cons by simp
  have gg: "getClusterGroup h i = Inr (Some g)"
    using getClusterGroup_Some[OF c] g by simp
  show ?case
  proof (cases "min_size < sz")
    case False
    then have "\<not> size_exceeds c min_size i" by (simp add: size_exceeds_def sz)
    then show ?thesis using False by (simp add: gg g IH)
  next
    case True
    then have k: "size_exceeds c min_size i" by (simp add: size_exceeds_def sz)
    show ?thesis
      using True k by (cases "getClusterData np rs h i fields'") (simp_all add: gg g IH)
  qed
qed

text \<open>
  Claim C5, as amended. Without a container the iterator yields nothing and ends
  normally. With a container whose \<open>n_clusters\<close> is present, with a value \<open>n\<close> such that
  \<open>n + 1\<close> is still an \<open>int64\<close> value, and whose groups from the start index (\<open>1\<close> when
  skipping the unclustered group, else \<open>0\<close>) to \<open>n\<close> each carry a \<open>cl_size\<close>, it yields, in
  ascending order of the index, the pairs of \<open>i\<close> and \<open>getClusterData\<close> of \<open>i\<close> for exactly
  the indices \<open>i\<close> in that range whose \<open>cl_size\<close> is greater than \<open>min_size\<close>; an exception
  of \<open>getClusterData\<close> ends the iteration at that index. A container without
  \<open>n_clusters\<close>, as a failed \<open>addClusters\<close> leaves it, makes the iterator raise
  \<open>KeyError\<close> before it yields anything.
\<close>

theorem clusters_iterator:
  "(\<not> hasClusters h \<longrightarrow> clustersIterator np rs h fields' min_size skip_unclustered = ([], None))
   \<and> (clusters h = Some c \<and> n_clusters_attr c = Some n \<and> is_int64 (n + 1)
        \<and> (\<forall>i \<in> {(if skip_unclustered then 1 else 0)..n}. \<exists>sz. stored_size c i = Some sz) \<longrightarrow>
      clustersIterator np rs h fields' min_size skip_unclustered =
        yield_all (map (\<lambda>i. (i, getClusterData np rs h i fields'))
                     (filter (size_exceeds c min_size) [(if skip_unclustered then 1 else 0)..n])))"
proof (intro conjI impI)
  assume "\<not> hasClusters h"
  then show "clustersIterator np rs h fields' min_size skip_unclustered = ([], None)"
    by (simp add: clustersIterator_def)
next
  assume a: "clusters h = Some c \<and> n_clusters_attr c = Some n \<and> is_int64 (n + 1)
        \<and> (\<forall>i \<in> {(if skip_unclustered then 1 else 0)..n}. \<exists>sz. stored_size c i = Some sz)"
  then have w: "wrap64 (n + 1) = n + 1" by (simp add: wrap64_id)
  from a have c: "clusters h = Some c" and n: "getNClusters h = Inr n"
    by (simp_all add: getNClusters_def getClusters_def)
  have all: "\<forall>i \<in> set [(if skip_unclustered then 1 else 0)..n]. \<exists>sz. stored_size c i = Some sz"
    using a by simp
  show "clustersIterator np rs h fields' min_size skip_unclustered =
        yield_all (map (\<lambda>i. (i, getClusterData np rs h i fields'))
                     (filter (size_exceeds c min_size) [(if skip_unclustered then 1 else 0)..n]))"
    using iter_loop_spec[OF c all, of np rs fields' min_size] c n
    by (cases skip_unclustered) (simp_all add: clustersIterator_def hasClusters_def w)
qed

theorem clusters_iterator_witness:
  "clustersIterator example_np example_store
     \<lparr>clusters = Some \<lparr>children =
         [''cl_0'' \<mapsto> \<lparr>datasets = [], cl_size_attr = Some 1\<rparr>,
          ''cl_1'' \<mapsto> \<lparr>datasets = [], cl_size_attr = Some 5\<rparr>,
          ''cl_2'' \<mapsto> \<lparr>datasets = [], cl_size_attr = Some 2\<rparr>,
          ''cl_3'' \<mapsto> \<lparr>datasets = [], cl_size_attr = Some 8\<rparr>],
        n_clusters_attr = Some 3, info_attr = None\<rparr>\<rparr> None 3 True
   = ([(1, []), (3, [])], None)
   \<and> clustersIterator example_np example_store \<lparr>clusters = None\<rparr> None 0 True = ([], None)"
proof -
  let ?c = "\<lparr>children =
         [''cl_0'' \<mapsto> \<lparr>datasets = [] :: (string, int) pydict, cl_size_attr = Some 1\<rparr>,
          ''cl_1'' \<mapsto> \<lparr>datasets = [], cl_size_attr = Some 5\<rparr>,
          ''cl_2'' \<mapsto> \<lparr>datasets = [], cl_size_attr = Some 2\<rparr>,
          ''cl_3'' \<mapsto> \<lparr>datasets = [], cl_size_attr = Some 8\<rparr>],
        n_clusters_attr = Some 3, info_attr = None\<rparr>"
  let ?h = "\<lparr>clusters = Some ?c\<rparr>"
  let ?e = "\<lparr>clusters = None\<rparr> :: (string, int) sa_h5"
  have s1: "stored_size ?c 1 = Some 5" and s2: "stored_size ?c 2 = Some 2"
    and s3: "stored_size ?c 3 = Some 8"
    by (simp_all add: stored_size_def nms)
  have r: "{(if True then 1 else 0)..(3 :: int)} = {1, 2, 3}" by auto
  have hyp: "clusters ?h = Some ?c \<and> n_clusters_attr ?c = Some 3 \<and> is_int64 (3 + 1)
        \<and> (\<forall>i \<in> {(if True then 1 else 0)..3}. \<exists>sz. stored_size ?c i = Some sz)"
    unfolding r using s1 s2 s3 by (simp add: is_int64_def)
  have l: "[(if True then 1 else 0)..(3 :: int)] = [1, 2, 3]" by (simp add: upto_rec1)
  have f: "filter (size_exceeds ?c 3) [1, 2, 3] = [1, 3]"
    by (simp add: size_exceeds_def s1 s2 s3)
  have d1: "getClusterData example_np example_store ?h 1 None = Inr []"
    by (simp add: getClusterData_def getClusterGroup_def getClusters_def rbind_def nms
        getCluster_def)
  have d3: "getClusterData example_np example_store ?h 3 None = Inr []"
    by (simp add: getClusterData_def getClusterGroup_def getClusters_def rbind_def nms
        getCluster_def)
  have a: "clustersIterator example_np example_store ?h None 3 True =
        yield_all (map (\<lambda>i. (i, getClusterData example_np example_store ?h i None))
                     (filter (size_exceeds ?c 3) [(if True then 1 else 0)..3]))"
    using clusters_iterator[where h = ?h and c = ?c and n = 3 and skip_unclustered = True
        and np = example_np and rs = example_store and fields' = None and min_size = 3] hyp
    by blast
  have a': "clustersIterator example_np example_store ?h None 3 True = ([(1, []), (3, [])], None)"
    unfolding a l f by (simp add: d1 d3)
  have ne: "\<not> hasClusters ?e" by (simp add: hasClusters_def)
  have b: "clustersIterator example_np example_store ?e None 0 True = ([], None)"
    using clusters_iterator[where h = ?e and skip_unclustered = True
        and np = example_np and rs = example_store and fields' = None and min_size = 0] ne
    by blast
  from a' b show ?thesis by simp
qed

theorem clusters_iterator_counterexample:
  "clustersIterator example_np example_store
     (snd (addClusters \<lparr>clusters = None\<rparr> [1, 2]
             [(''x'', \<lparr>dtype = ''float64'', elems = [7]\<rparr>)])) None 0 True
   = ([], Some (KeyError ''n_clusters''))"
  by (simp add: addClusters_def hasClusters_def size_of_def clustersIterator_def
      getNClusters_def getClusters_def empty_clusters_grp_def)

section \<open>\<open>getDataForClustering\<close>\<close>

lemma setslice_fits:
  assumes "s + length vs \<le> size_of a"
  shows "setslice np a s (s + length vs) vs =
    Inr (a\<lparr>elems := take s (elems a) @ map (np_cast np (dtype a)) vs
                      @ drop (s + length vs) (elems a)\<rparr>)"
proof -
  have 1: "min s (size_of a) = s" using assms by simp
  have 2: "max s (min (s + length vs) (size_of a)) = s + length vs" using assms by simp
  show ?thesis unfolding setslice_def Let_def 1 2 by simp
qed

lemma setslice_size:
  assumes "s + length vs \<le> size_of a"
  shows "\<exists>a'. setslice np a s (s + length vs) vs = Inr a' \<and> size_of a' = size_of a"
  using assms unfolding setslice_fits[OF assms] by (simp add: size_of_def)

lemma setslice_scalar_size:
  "s + n \<le> size_of a \<Longrightarrow> size_of (setslice_scalar np a s (s + n) v) = size_of a"
  by (simp add: setslice_scalar_def size_of_def Let_def)

lemma setslice_filled:
  assumes f: "filled np tot a P" and le: "length P + length vs \<le> tot"
  shows "\<exists>a'. setslice np a (length P) (length P + length vs) vs = Inr a'
     \<and> filled np tot a' (P @ map (np_cast np (dt_float np)) vs)"
proof -
  from f have dt: "dtype a = dt_float np"
    and el: "elems a = P @ replicate (tot - length P) (np_zero np (dt_float np))"
    by (simp_all add: filled_def)
  have sz: "size_of a = tot" using el f by (simp add: size_of_def filled_def)
  have fits: "length P + length vs \<le> size_of a" using le sz by simp
  have tk: "take (length P) (elems a) = P" by (simp add: el)
  have dr: "drop (length P + length vs) (elems a)
      = replicate (tot - length P - length vs) (np_zero np (dt_float np))"
    by (simp add: el)
  show ?thesis
    unfolding setslice_fits[OF fits] using le
    by (simp add: filled_def tk dr dt)
qed

lemma filled_skip:
  assumes f: "filled np tot a P" and le: "length P + n \<le> tot"
  shows "filled np tot a (P @ replicate n (np_zero np (dt_float np)))"
proof -
  have "replicate (tot - length P) (np_zero np (dt_float np))
      = replicate n (np_zero np (dt_float np)) @ replicate (tot - length P - n) (np_zero np (dt_float np))"
    using le by (simp add: replicate_add[symmetric])
  then show ?thesis using f le by (simp add: filled_def)
qed

lemma fill_step_ok:
  assumes inv: "fill_inv np tot st X Y Z"
    and ok: "group_ok ignore_z d"
    and le: "length X + length (field_elems d ''x'') \<le> tot"
  shows "\<exists>st'. fill_step np pix ignore_z g d st = Inr st'
     \<and> fill_inv np tot st'
          (X @ scaled np d ''x'' pix) (Y @ scaled np d ''y'' pix)
          (Z @ (if ignore_z then replicate (length (field_elems d ''x'')) (np_zero np (dt_float np))
                else scaled np d ''z'' (np_1000 np)))"
proof -
  from ok obtain ax ay ac where
    mx: "map_of d ''x'' = Some ax" and my: "map_of d ''y'' = Some ay"
    and mc: "map_of d ''category'' = Some ac"
    and sy: "size_of ay = size_of ax" and sc: "size_of ac = size_of ax"
    and zz: "ignore_z \<or> (\<exists>az. map_of d ''z'' = Some az \<and> size_of az = size_of ax)"
    by (auto simp: group_ok_def split: option.splits)
  let ?n = "size_of ax"
  let ?s = "length X"
  have fx: "field_elems d ''x'' = elems ax" and fy: "field_elems d ''y'' = elems ay"
    by (simp_all add: field_elems_def mx my)
  have n: "length (elems ax) = ?n" "length (elems ay) = ?n" "length (elems ac) = ?n"
    using sy sc by (simp_all add: size_of_def)
  from inv have s: "fs_start st = length X" and ly: "length Y = length X" and lz: "length Z = length X"
    and sg: "size_of (fs_grp st) = tot" and sl: "size_of (fs_loc_id st) = tot"
    and scc: "size_of (fs_c st) = tot"
    and ix: "filled np tot (fs_x st) X" and iy: "filled np tot (fs_y st) Y"
    and iz: "filled np tot (fs_z st) Z"
    by (simp_all add: fill_inv_def)
  have le': "length X + ?n \<le> tot" using le by (simp add: fx n)
  obtain lid where lid: "setslice np (fs_loc_id st) ?s (?s + ?n)
        (map (\<lambda>k. np_of_int np (int k)) [0..<?n]) = Inr lid" and lids: "size_of lid = tot"
    using setslice_size[of ?s "map (\<lambda>k. np_of_int np (int k)) [0..<?n]" "fs_loc_id st" np]
      le' s sl by auto
  have grp: "size_of (setslice_scalar np (fs_grp st) ?s (?s + ?n) g) = tot"
    using setslice_scalar_size[of ?s ?n "fs_grp st" np g] le' s sg by simp
  obtain x' where x': "setslice np (fs_x st) ?s (?s + ?n)
        (map (\<lambda>v. np_mul np v pix) (elems ax)) = Inr x'"
    and fx': "filled np tot x' (X @ scaled np d ''x'' pix)"
    using setslice_filled[OF ix, of "map (\<lambda>v. np_mul np v pix) (elems ax)"] le' s
    by (auto simp: n scaled_def fx comp_def)
  obtain y' where y': "setslice np (fs_y st) ?s (?s + ?n)
        (map (\<lambda>v. np_mul np v pix) (elems ay)) = Inr y'"
    and fy': "filled np tot y' (Y @ scaled np d ''y'' pix)"
    using setslice_filled[OF iy, of "map (\<lambda>v. np_mul np v pix) (elems ay)"] le' s ly
    by (auto simp: n scaled_def fy comp_def)
  obtain c' where c': "setslice np (fs_c st) ?s (?s + ?n) (elems ac) = Inr c'"
    and cs: "size_of c' = tot"
    using setslice_size[of ?s "elems ac" "fs_c st" np] le' s scc by (auto simp: n)
  show ?thesis
  proof (cases ignore_z)
    case True
    have fz': "filled np tot (fs_z st) (Z @ replicate ?n (np_zero np (dt_float np)))"
      using filled_skip[OF iz, of ?n] le' lz by simp
    show ?thesis
      using True s ly lz lids grp fx' fy' fz' cs
      by (simp add: fill_step_def rbind_def dict_get_def mx my mc Let_def lid x' y' c'
          fill_inv_def scaled_def fx fy n)
  next
    case False
    with zz obtain az where mz: "map_of d ''z'' = Some az" and sz: "size_of az = ?n" by auto
    have nz: "length (elems az) = ?n" using sz by (simp add: size_of_def)
    have fze: "field_elems d ''z'' = elems az" by (simp add: field_elems_def mz)
    obtain z' where z': "setslice np (fs_z st) ?s (?s + ?n)
          (map (\<lambda>v. np_mul np v (np_1000 np)) (elems az)) = Inr z'"
      and fz': "filled np tot z' (Z @ scaled np d ''z'' (np_1000 np))"
      using setslice_filled[OF iz, of "map (\<lambda>v. np_mul np v (np_1000 np)) (elems az)"] le' s lz
      by (auto simp: nz scaled_def fze comp_def)
    show ?thesis
      using False s ly lz lids grp fx' fy' fz' cs
      by (simp add: fill_step_def rbind_def dict_get_def mx my mc mz Let_def lid x' y' z' c'
          fill_inv_def scaled_def fx fy fze n nz)
  qed
qed

lemma locs_loop_ok:
  "fill_inv np tot st X Y Z \<Longrightarrow> \<forall>d \<in> set (map snd gs). group_ok ignore_z d \<Longrightarrow>
   length X + sum_list (map (\<lambda>d. length (field_elems d ''x'')) (map snd gs)) \<le> tot \<Longrightarrow>
   \<exists>st'. locs_loop np pix ignore_z gs st = Inr st'
     \<and> fill_inv np tot st'
          (X @ concat (map (\<lambda>d. scaled np d ''x'' pix) (map snd gs)))
          (Y @ concat (map (\<lambda>d. scaled np d ''y'' pix) (map snd gs)))
          (Z @ concat (map (z_part np ignore_z) (map snd gs)))"
proof (induction gs arbitrary: st X Y Z)
  case Nil
  then show ?case by simp
next
  case (Cons fd gs)
  obtain f d where fd: "fd = (f, d)" by (cases fd)
  have ok: "group_ok ignore_z d" using Cons.prems(2) fd by simp
  have le: "length X + length (field_elems d ''x'') \<le> tot" using Cons.prems(3) fd by simp
  from fill_step_ok[OF Cons.prems(1) ok le, of pix "np_of_int np f"]
  obtain st1 where st1: "fill_step np pix ignore_z (np_of_int np f) d st = Inr st1"
    and inv1: "fill_inv np tot st1 (X @ scaled np d ''x'' pix) (Y @ scaled np d ''y'' pix)
        (Z @ z_part np ignore_z d)"
    by (auto simp: z_part_def)
  have oks: "\<forall>d \<in> set (map snd gs). group_ok ignore_z d" using Cons.prems(2) by simp
  have lx: "length (scaled np d ''x'' pix) = length (field_elems d ''x'')"
    by (simp add: scaled_def)
  have les: "length (X @ scaled np d ''x'' pix)
      + sum_list (map (\<lambda>d. length (field_elems d ''x'')) (map snd gs)) \<le> tot"
    using Cons.prems(3) fd by (simp add: lx)
  from Cons.IH[OF inv1 oks les]
  show ?case unfolding fd by (simp add: st1 rbind_def)
qed

lemma tracks_loop_ok:
  "fill_inv np tot st X Y Z \<Longrightarrow> \<forall>d \<in> set ts. group_ok ignore_z d \<Longrightarrow>
   length X + sum_list (map (\<lambda>d. length (field_elems d ''x'')) ts) \<le> tot \<Longrightarrow>
   \<exists>st'. tracks_loop np pix ignore_z i ts st = Inr st'
     \<and> fill_inv np tot st'
          (X @ concat (map (\<lambda>d. scaled np d ''x'' pix) ts))
          (Y @ concat (map (\<lambda>d. scaled np d ''y'' pix) ts))
          (Z @ concat (map (z_part np ignore_z) ts))"
proof (induction ts arbitrary: st X Y Z i)
  case Nil
  then show ?case by simp
next
  case (Cons d ts)
  have ok: "group_ok ignore_z d" using Cons.prems(2) by simp
  have le: "length X + length (field_elems d ''x'') \<le> tot" using Cons.prems(3) by simp
  from fill_step_ok[OF Cons.prems(1) ok le, of pix "np_of_int np i"]
  obtain st1 where st1: "fill_step np pix ignore_z (np_of_int np i) d st = Inr st1"
    and inv1: "fill_inv np tot st1 (X @ scaled np d ''x'' pix) (Y @ scaled np d ''y'' pix)
        (Z @ z_part np ignore_z d)"
    by (auto simp: z_part_def)
  have oks: "\<forall>d \<in> set ts. group_ok ignore_z d" using Cons.prems(2) by simp
  have lx: "length (scaled np d ''x'' pix) = length (field_elems d ''x'')"
    by (simp add: scaled_def)
  have les: "length (X @ scaled np d ''x'' pix)
      + sum_list (map (\<lambda>d. length (field_elems d ''x'')) ts) \<le> tot"
    using Cons.prems(3) by (simp add: lx)
  from Cons.IH[OF inv1 oks les, of "i + 1"]
  show ?case by (simp add: st1 rbind_def)
qed

lemma zero_state_inv: "fill_inv np tot (zero_state np tot) [] [] []"
  by (simp add: fill_inv_def zero_state_def np_zeros_def size_of_def filled_def)

lemma concat_replicate:
  "concat (map (\<lambda>d. replicate (f d) z) gs) = replicate (sum_list (map f gs)) z"
  by (induction gs) (simp_all add: replicate_add)

lemma length_concat_scaled:
  "length (concat (map (\<lambda>d. scaled np d ''x'' pix) gs))
     = sum_list (map (\<lambda>d. length (field_elems d ''x'')) gs)"
  by (induction gs) (simp_all add: scaled_def)

lemma loops_ok:
  assumes ok: "\<forall>d \<in> set (store_groups rs ignore_z). group_ok ignore_z d"
    and le: "n_records rs ignore_z \<le> store_total rs"
  shows "\<exists>st. (if hasTracks rs
            then tracks_loop np (getPixelSize rs) ignore_z 0
                   (tracksIterator rs [''x'', ''y'', ''z'', ''category''])
                   (zero_state np (getNTracks rs))
            else locs_loop np (getPixelSize rs) ignore_z
                   (localizationsIterator rs
                      ([''x'', ''y'', ''category''] @ (if \<not> ignore_z then [''z''] else [])))
                   (zero_state np (getNLocalizations rs))) = Inr st
     \<and> fill_inv np (store_total rs) st
          (concat (map (\<lambda>d. scaled np d ''x'' (getPixelSize rs)) (store_groups rs ignore_z)))
          (concat (map (\<lambda>d. scaled np d ''y'' (getPixelSize rs)) (store_groups rs ignore_z)))
          (concat (map (z_part np ignore_z) (store_groups rs ignore_z)))"
proof (cases "hasTracks rs")
  case True
  have g: "store_groups rs ignore_z = tracksIterator rs [''x'', ''y'', ''z'', ''category'']"
    and t: "store_total rs = getNTracks rs"
    using True by (simp_all add: store_groups_def store_total_def)
  have le': "length ([] :: 'b list) + sum_list (map (\<lambda>d. length (field_elems d ''x''))
      (tracksIterator rs [''x'', ''y'', ''z'', ''category''])) \<le> getNTracks rs"
    using le by (simp add: n_records_def g t)
  from tracks_loop_ok[OF zero_state_inv _ le', of ignore_z np "getPixelSize rs" 0] ok
  show ?thesis using True by (simp add: g t)
next
  case False
  let ?fs = "[''x'', ''y'', ''category''] @ (if \<not> ignore_z then [''z''] else [])"
  have g: "store_groups rs ignore_z = map snd (localizationsIterator rs ?fs)"
    and t: "store_total rs = getNLocalizations rs"
    using False by (simp_all add: store_groups_def store_total_def)
  have le': "length ([] :: 'b list) + sum_list (map (\<lambda>d. length (field_elems d ''x''))
      (map snd (localizationsIterator rs ?fs))) \<le> getNLocalizations rs"
    using le unfolding n_records_def g t by simp
  have ok': "\<forall>d \<in> set (map snd (localizationsIterator rs ?fs)). group_ok ignore_z d"
    using ok unfolding g .
  from locs_loop_ok[OF zero_state_inv ok' le', of np "getPixelSize rs"]
  show ?thesis using False unfolding g t by simp
qed

text \<open>
  Claim C8. When every group of the store is well formed and the store reports at least
  as many records as its groups hold, \<open>getDataForClustering\<close> succeeds in both modes and
  for both values of \<open>ignore_z\<close>: \<open>x\<close> and \<open>y\<close> are the \<open>x\<close> and \<open>y\<close> of the groups, in
  order, each value multiplied by the pixel size; \<open>z\<close> is the \<open>z\<close> of the groups multiplied
  by \<open>1000.0\<close> when \<open>ignore_z\<close> is false, and all zeros when it is true. Positions beyond
  the records of the groups keep the zero of \<open>numpy.zeros\<close>.
\<close>

theorem data_for_clustering:
  assumes ok: "\<forall>d \<in> set (store_groups rs ignore_z). group_ok ignore_z d"
    and le: "n_records rs ignore_z \<le> store_total rs"
  shows "\<exists>x y z c cluster_data.
     getDataForClustering np rs ignore_z = Inr (x, y, z, c, cluster_data)
     \<and> elems x = concat (map (\<lambda>d. scaled np d ''x'' (getPixelSize rs)) (store_groups rs ignore_z))
                 @ replicate (store_total rs - n_records rs ignore_z) (np_zero np (dt_float np))
     \<and> elems y = concat (map (\<lambda>d. scaled np d ''y'' (getPixelSize rs)) (store_groups rs ignore_z))
                 @ replicate (store_total rs - n_records rs ignore_z) (np_zero np (dt_float np))
     \<and> elems z =
         (if ignore_z then replicate (store_total rs) (np_zero np (dt_float np))
          else concat (map (\<lambda>d. scaled np d ''z'' (np_1000 np)) (store_groups rs ignore_z))
                 @ replicate (store_total rs - n_records rs ignore_z) (np_zero np (dt_float np)))"
proof -
  let ?gs = "store_groups rs ignore_z"
  let ?X = "concat (map (\<lambda>d. scaled np d ''x'' (getPixelSize rs)) ?gs)"
  let ?Y = "concat (map (\<lambda>d. scaled np d ''y'' (getPixelSize rs)) ?gs)"
  let ?Z = "concat (map (z_part np ignore_z) ?gs)"
  let ?zero = "np_zero np (dt_float np)"
  from loops_ok[OF ok le, of np] obtain st where
    run: "(if hasTracks rs
            then tracks_loop np (getPixelSize rs) ignore_z 0
                   (tracksIterator rs [''x'', ''y'', ''z'', ''category''])
                   (zero_state np (getNTracks rs))
            else locs_loop np (getPixelSize rs) ignore_z
                   (localizationsIterator rs
                      ([''x'', ''y'', ''category''] @ (if \<not> ignore_z then [''z''] else [])))
                   (zero_state np (getNLocalizations rs))) = Inr st"
    and inv: "fill_inv np (store_total rs) st ?X ?Y ?Z"
    by blast
  have lX: "length ?X = n_records rs ignore_z"
    by (simp add: length_concat_scaled n_records_def)
  from inv have lY: "length ?Y = length ?X" and lZ: "length ?Z = length ?X"
    and ex: "elems (fs_x st) = ?X @ replicate (store_total rs - length ?X) ?zero"
    and ey: "elems (fs_y st) = ?Y @ replicate (store_total rs - length ?Y) ?zero"
    and ez: "elems (fs_z st) = ?Z @ replicate (store_total rs - length ?Z) ?zero"
    by (simp_all add: fill_inv_def filled_def)
  have zi: "elems (fs_z st) = replicate (store_total rs) ?zero" if "ignore_z"
  proof -
    have "map (z_part np ignore_z) ?gs
        = map (\<lambda>d. replicate (length (field_elems d ''x'')) ?zero) ?gs"
      using that by (intro map_cong refl) (simp add: z_part_def)
    then have "?Z = replicate (n_records rs ignore_z) ?zero"
      by (simp only: concat_replicate n_records_def)
    then show ?thesis
      using ez le lZ lX by (simp add: replicate_add[symmetric])
  qed
  have zn: "elems (fs_z st) = concat (map (\<lambda>d. scaled np d ''z'' (np_1000 np)) ?gs)
      @ replicate (store_total rs - n_records rs ignore_z) ?zero" if "\<not> ignore_z"
  proof -
    have m: "map (z_part np ignore_z) ?gs = map (\<lambda>d. scaled np d ''z'' (np_1000 np)) ?gs"
      using that by (intro map_cong refl) (simp add: z_part_def)
    have "length ?Z = n_records rs ignore_z" using lZ lX by simp
    with ez show ?thesis unfolding m by simp
  qed
  have res: "getDataForClustering np rs ignore_z =
      Inr (fs_x st, fs_y st, fs_z st, fs_c st,
           if hasTracks rs
           then AList.update ''track_id'' (fs_grp st) (AList.update ''loc_id'' (fs_loc_id st) [])
           else AList.update ''loc_id'' (fs_loc_id st) (AList.update ''frame'' (fs_grp st) []))"
    using run by (cases "hasTracks rs") (simp_all add: getDataForClustering_def rbind_def Let_def)
  show ?thesis
    using res ex ey zi zn lX lY by (cases ignore_z) auto
qed

lemma example_groups:
  "store_groups example_store iz = [example_frame0, example_frame1]"
  by (simp add: store_groups_def example_store_def)

lemma example_ok: "group_ok iz example_frame0" "group_ok iz example_frame1"
  by (simp_all add: group_ok_def example_frame0_def example_frame1_def size_of_def)

lemma example_px: "getPixelSize example_store = 160"
  by (simp add: example_store_def)

lemma example_total: "store_total example_store = 3"
  by (simp add: store_total_def example_store_def)

lemma example_count: "n_records example_store iz = 3"
  unfolding n_records_def example_groups
  by (simp add: field_elems_def example_frame0_def example_frame1_def)

theorem data_for_clustering_witness:
  "(\<exists>x y z c cluster_data.
      getDataForClustering example_np example_store True = Inr (x, y, z, c, cluster_data)
      \<and> elems x = [160, 320, 1120] \<and> elems y = [480, 640, 1280] \<and> elems z = [0, 0, 0])
   \<and> (\<exists>x y z c cluster_data.
      getDataForClustering example_np example_store False = Inr (x, y, z, c, cluster_data)
      \<and> elems x = [160, 320, 1120] \<and> elems y = [480, 640, 1280]
      \<and> elems z = [5000, 6000, 9000])"
proof -
  have ok: "\<forall>d \<in> set (store_groups example_store iz). group_ok iz d" for iz
    by (simp add: example_groups example_ok)
  have le: "n_records example_store iz \<le> store_total example_store" for iz
    by (simp add: example_count example_total)
  have sx: "concat (map (\<lambda>d. scaled example_np d ''x'' (getPixelSize example_store))
        (store_groups example_store iz)) = [160, 320, 1120]" for iz
    unfolding example_groups example_px
    by (simp add: scaled_def field_elems_def example_frame0_def example_frame1_def
        example_np_def)
  have sy: "concat (map (\<lambda>d. scaled example_np d ''y'' (getPixelSize example_store))
        (store_groups example_store iz)) = [480, 640, 1280]" for iz
    unfolding example_groups example_px
    by (simp add: scaled_def field_elems_def example_frame0_def example_frame1_def
        example_np_def)
  have sz: "concat (map (\<lambda>d. scaled example_np d ''z'' (np_1000 example_np))
        (store_groups example_store iz)) = [5000, 6000, 9000]" for iz
    unfolding example_groups
    by (simp add: scaled_def field_elems_def example_frame0_def example_frame1_def
        example_np_def)
  have z0: "replicate 3 (np_zero example_np (dt_float example_np)) = [0, 0, 0]"
    by (simp add: example_np_def numeral_3_eq_3)
  have a: "\<exists>x y z c cluster_data.
      getDataForClustering example_np example_store True = Inr (x, y, z, c, cluster_data)
      \<and> elems x = [160, 320, 1120] \<and> elems y = [480, 640, 1280] \<and> elems z = [0, 0, 0]"
    using data_for_clustering[OF ok le, where ignore_z = True and np = example_np]
    by (simp add: sx sy z0 example_count example_total)
  have b: "\<exists>x y z c cluster_data.
      getDataForClustering example_np example_store False = Inr (x, y, z, c, cluster_data)
      \<and> elems x = [160, 320, 1120] \<and> elems y = [480, 640, 1280]
      \<and> elems z = [5000, 6000, 9000]"
    using data_for_clustering[OF ok le, where ignore_z = False and np = example_np]
    by (simp add: sx sy sz example_count example_total)
  from a b show ?thesis by blast
qed

section \<open>\<open>getClusterData\<close> on a cluster with members\<close>

lemma fold_update_map:
  "distinct (map fst xs) \<Longrightarrow> fst ` set xs \<inter> fst ` set ys = {} \<Longrightarrow>
   fold (\<lambda>(k, a) d. AList.update k (F a) d) xs ys = ys @ map (\<lambda>(k, a). (k, F a)) xs"
proof (induction xs arbitrary: ys)
  case Nil
  then show ?case by simp
next
  case (Cons ka xs)
  obtain k a where ka: "ka = (k, a)" by (cases ka)
  have fr: "k \<notin> fst ` set ys" using Cons.prems(2) ka by auto
  have d: "distinct (map fst xs)" using Cons.prems(1) by simp
  have dj: "fst ` set xs \<inter> fst ` set (ys @ [(k, F a)]) = {}"
    using Cons.prems ka by auto
  show ?case
    unfolding ka by (simp add: update_fresh[OF fr] Cons.IH[OF d dj])
qed

lemma alloc_fields_empty:
  "distinct (map fst d0) \<Longrightarrow> alloc_fields np n d0 [] = partial_join np n d0 V 0"
  unfolding alloc_fields_def
  by (subst fold_update_map) (simp_all add: partial_join_def np_zeros_def)

lemma update_present:
  "distinct (map fst cl) \<Longrightarrow> k \<in> fst ` set cl \<Longrightarrow>
   AList.update k v cl = map (\<lambda>(f, d). (f, if f = k then v else d)) cl"
proof (induction cl)
  case Nil
  then show ?case by simp
next
  case (Cons p cl)
  obtain f d where p: "p = (f, d)" by (cases p)
  show ?case
  proof (cases "f = k")
    case True
    then have "k \<notin> fst ` set cl" using Cons.prems(1) p by auto
    then have "map (\<lambda>(f, d). (f, if f = k then v else d)) cl = cl"
      by (induction cl) auto
    then show ?thesis using True p by simp
  next
    case False
    then have "k \<in> fst ` set cl" using Cons.prems(2) p by auto
    then show ?thesis using False p Cons.IH Cons.prems(1) by simp
  qed
qed

lemma map_of_merge:
  "distinct (map fst cl_dict) \<Longrightarrow>
   map_of (merge_fields cl cl_dict) = map_of cl ++ map_of cl_dict"
  unfolding merge_fields_def
proof (induction cl_dict arbitrary: cl)
  case Nil
  then show ?case by simp
next
  case (Cons p r)
  obtain k v where p: "p = (k, v)" by (cases p)
  have nk: "map_of r k = None" using Cons.prems p by (auto simp: map_of_eq_None_iff)
  have d: "distinct (map fst r)" using Cons.prems by simp
  have e: "(map_of cl)(k \<mapsto> v) ++ map_of r = map_of cl ++ map_of ((k, v) # r)"
  proof (rule ext)
    fix x show "((map_of cl)(k \<mapsto> v) ++ map_of r) x = (map_of cl ++ map_of ((k, v) # r)) x"
      using nk by (cases "x = k") (simp_all add: map_add_def split: option.splits)
  qed
  have "map_of (fold (\<lambda>(field, a) cl. AList.update field a cl) (p # r) cl)
      = map_of (fold (\<lambda>(field, a) cl. AList.update field a cl) r (AList.update k v cl))"
    by (simp add: p)
  also have "\<dots> = map_of (AList.update k v cl) ++ map_of r"
    by (rule Cons.IH[OF d])
  also have "\<dots> = (map_of cl)(k \<mapsto> v) ++ map_of r" by (simp only: update_conv')
  also have "\<dots> = map_of cl ++ map_of (p # r)" unfolding p by (rule e)
  finally show ?case .
qed

lemma getitem_nat: "k < size_of a \<Longrightarrow> getitem a (int k) = Inr (elems a ! k)"
  by (simp add: getitem_def Let_def)

lemma map_of_distinct_in:
  "distinct (map fst cl) \<Longrightarrow> (f, d) \<in> set cl \<Longrightarrow> map_of cl f = Some d"
  by simp

lemma fill_fields_ok:
  assumes lid: "map_of cl_dict ''loc_id'' = Some loc_id" and ki: "k < size_of loc_id"
    and idx: "np_index np (elems loc_id ! k) = Some j"
  shows "distinct (map fst cl) \<Longrightarrow> distinct (map fst rest) \<Longrightarrow>
     fst ` set rest \<subseteq> fst ` set cl \<Longrightarrow> \<forall>(f, dst) \<in> set cl. k < size_of dst \<Longrightarrow>
     \<forall>(f, src) \<in> set rest. getitem src j = Inr (W f) \<Longrightarrow>
     fill_fields np cl cl_dict k rest =
       Inr (map (\<lambda>(f, dst). (f, if f \<in> fst ` set rest
                                   then dst\<lparr>elems := (elems dst)[k := np_cast np (dtype dst) (W f)]\<rparr>
                                   else dst)) cl)"
proof (induction rest arbitrary: cl)
  case Nil
  have "map (\<lambda>(f, dst). (f, dst)) cl = cl" by (induction cl) auto
  then show ?case by simp
next
  case (Cons p rest)
  obtain field src where p: "p = (field, src)" by (cases p)
  have gv: "getitem src j = Inr (W field)" using Cons.prems(5) p by simp
  have "field \<in> fst ` set cl" using Cons.prems(3) p by simp
  then obtain dst where dm: "(field, dst) \<in> set cl" by auto
  then have md: "map_of cl field = Some dst" using Cons.prems(1) by simp
  have ks: "k < size_of dst" using Cons.prems(4) dm by auto
  let ?dst' = "dst\<lparr>elems := (elems dst)[k := np_cast np (dtype dst) (W field)]\<rparr>"
  let ?U = "\<lambda>(f, d). (f, if f = field then ?dst' else d)"
  let ?cl1 = "map ?U cl"
  have up: "AList.update field ?dst' cl = ?cl1"
    using update_present[OF Cons.prems(1) \<open>field \<in> fst ` set cl\<close>] by simp
  have keys1: "map fst ?cl1 = map fst cl" by (induction cl) auto
  have d1: "distinct (map fst ?cl1)" unfolding keys1 by (rule Cons.prems(1))
  have dr: "distinct (map fst rest)" using Cons.prems(2) by simp
  have sub: "fst ` set rest \<subseteq> fst ` set ?cl1"
  proof -
    have "fst ` set ?cl1 = set (map fst ?cl1)" by (simp only: set_map)
    also have "\<dots> = fst ` set cl" unfolding keys1 by simp
    finally show ?thesis using Cons.prems(3) by simp
  qed
  have sz1: "\<forall>(f, dst) \<in> set ?cl1. k < size_of dst"
    using Cons.prems(4) ks by (auto simp: size_of_def)
  have vals: "\<forall>(f, src) \<in> set rest. getitem src j = Inr (W f)" using Cons.prems(5) by simp
  have nr: "field \<notin> fst ` set rest" using Cons.prems(2) p by auto
  have step: "fill_fields np cl cl_dict k (p # rest) = fill_fields np ?cl1 cl_dict k rest"
    unfolding p
    by (simp add: rbind_def dict_get_def lid getitem_nat[OF ki] idx gv md setitem_def ks up)
  have comb: "map (\<lambda>(f, dst). (f, if f \<in> fst ` set rest
                                   then dst\<lparr>elems := (elems dst)[k := np_cast np (dtype dst) (W f)]\<rparr>
                                   else dst)) ?cl1
      = map (\<lambda>(f, dst). (f, if f \<in> fst ` set (p # rest)
                                   then dst\<lparr>elems := (elems dst)[k := np_cast np (dtype dst) (W f)]\<rparr>
                                   else dst)) cl"
  proof -
    have "\<And>f d. (f, d) \<in> set cl \<Longrightarrow> f = field \<Longrightarrow> d = dst"
      using md Cons.prems(1) by (metis map_of_distinct_in option.inject)
    then show ?thesis using nr p by (auto simp: map_idI)
  qed
  show ?case
    unfolding step Cons.IH[OF d1 dr sub sz1 vals] comb ..
qed

lemma partial_join_keys: "map fst (partial_join np n d0 V k) = map fst d0"
  by (induction d0) (auto simp: partial_join_def)

lemma member_valueD:
  assumes "member_value np lookup ids loc_id k f = Some v"
    and "lookup (np_int np (elems ids ! k)) = Inr dk"
  shows "\<exists>src j. map_of dk f = Some src \<and> np_index np (elems loc_id ! k) = Some j
     \<and> getitem src j = Inr v"
  using assms by (auto simp: member_value_def split: option.splits sum.splits)

lemma join_step:
  assumes lid: "map_of cl_dict ''loc_id'' = Some loc_id"
    and nle: "n \<le> size_of loc_id"
    and k: "k < n"
    and lk: "lookup (np_int np (elems ids ! k)) = Inr dk"
    and keys: "map fst dk = map fst d0"
    and dd: "distinct (map fst d0)"
    and mv: "\<forall>f \<in> fst ` set d0. member_value np lookup ids loc_id k f = Some (V k f)"
  shows "fill_fields np (partial_join np n d0 V k) cl_dict k dk
     = Inr (partial_join np n d0 V (Suc k))"
proof (cases "d0 = []")
  case True
  then have "dk = []" using keys by simp
  then show ?thesis using True by (simp add: partial_join_def)
next
  case False
  then obtain f0 where f0: "f0 \<in> fst ` set d0" by (cases d0) auto
  from member_valueD[OF mv[rule_format, OF f0] lk]
  obtain j where idx: "np_index np (elems loc_id ! k) = Some j" by auto
  have ki: "k < size_of loc_id" using k nle by simp
  have ks: "fst ` set dk = fst ` set d0"
  proof -
    have "fst ` set dk = set (map fst dk)" by simp
    also have "\<dots> = fst ` set d0" unfolding keys by simp
    finally show ?thesis .
  qed
  have d1: "distinct (map fst (partial_join np n d0 V k))"
    unfolding partial_join_keys by (rule dd)
  have d2: "distinct (map fst dk)" unfolding keys by (rule dd)
  have sub: "fst ` set dk \<subseteq> fst ` set (partial_join np n d0 V k)"
  proof -
    have "fst ` set (partial_join np n d0 V k) = set (map fst (partial_join np n d0 V k))"
      by (simp only: set_map)
    also have "\<dots> = fst ` set d0" unfolding partial_join_keys by simp
    finally show ?thesis using ks by simp
  qed
  have sz: "\<forall>(f, dst) \<in> set (partial_join np n d0 V k). k < size_of dst"
    using k by (auto simp: partial_join_def size_of_def)
  have vals: "\<forall>(f, src) \<in> set dk. getitem src j = Inr (V k f)"
  proof (intro ballI, clarify)
    fix f src assume m: "(f, src) \<in> set dk"
    then have ms: "map_of dk f = Some src" using d2 by simp
    have "f \<in> fst ` set d0" using m ks by force
    from member_valueD[OF mv[rule_format, OF this] lk] ms idx
    show "getitem src j = Inr (V k f)" by auto
  qed
  have n: "n - k = Suc (n - Suc k)" using k by simp
  have el: "(map g [0..<k] @ replicate (n - k) z)[k := g k]
      = map g [0..<Suc k] @ replicate (n - Suc k) z" for g :: "nat \<Rightarrow> 'b" and z
    unfolding n by (simp add: list_update_append)
  have res: "map (\<lambda>(f, dst). (f, if f \<in> fst ` set dk
                 then dst\<lparr>elems := (elems dst)[k := np_cast np (dtype dst) (V k f)]\<rparr>
                 else dst)) (partial_join np n d0 V k)
      = partial_join np n d0 V (Suc k)"
    unfolding partial_join_def map_map
  proof (rule map_cong[OF refl])
    fix p assume "p \<in> set d0"
    then have "fst p \<in> fst ` set dk" unfolding ks by simp
    then show "((\<lambda>(f, dst). (f, if f \<in> fst ` set dk
                 then dst\<lparr>elems := (elems dst)[k := np_cast np (dtype dst) (V k f)]\<rparr>
                 else dst)) \<circ>
           (\<lambda>(f, a0). (f, \<lparr>dtype = dtype a0,
                          elems = map (\<lambda>i. np_cast np (dtype a0) (V i f)) [0..<k]
                                  @ replicate (n - k) (np_zero np (dtype a0))\<rparr>))) p
        = (case p of (f, a0) \<Rightarrow> (f, \<lparr>dtype = dtype a0,
                          elems = map (\<lambda>i. np_cast np (dtype a0) (V i f)) [0..<Suc k]
                                  @ replicate (n - Suc k) (np_zero np (dtype a0))\<rparr>))"
      using el[of "\<lambda>i. np_cast np (dtype (snd p)) (V i (fst p))" "np_zero np (dtype (snd p))"]
      by (cases p) simp
  qed
  show ?thesis
    unfolding fill_fields_ok[OF lid ki idx d1 d2 sub sz vals] res ..
qed

lemma join_loop_ok:
  assumes lid: "map_of cl_dict ''loc_id'' = Some loc_id"
    and n: "n = size_of ids"
    and nle: "n \<le> size_of loc_id"
    and looks: "\<forall>i<n. \<exists>d. lookup (np_int np (elems ids ! i)) = Inr d \<and> map fst d = map fst d0"
    and first: "0 < n \<longrightarrow> lookup (np_int np (elems ids ! 0)) = Inr d0"
    and dd: "distinct (map fst d0)"
    and mv: "\<forall>i<n. \<forall>f \<in> fst ` set d0. member_value np lookup ids loc_id i f = Some (V i f)"
  shows "k \<le> n \<Longrightarrow>
     join_loop np lookup cl_dict ids n (if k = 0 then [] else partial_join np n d0 V k) [k..<n]
       = Inr (if n = 0 then [] else partial_join np n d0 V n)"
proof (induction "n - k" arbitrary: k)
  case 0
  then have "k = n" by simp
  then show ?case by simp
next
  case (Suc m)
  then have k: "k < n" by simp
  from looks k obtain dk where lk: "lookup (np_int np (elems ids ! k)) = Inr dk"
    and keys: "map fst dk = map fst d0" by blast
  let ?cl = "if k = 0 then [] else partial_join np n d0 V k"
  have start: "(if ?cl = [] then alloc_fields np n dk ?cl else ?cl) = partial_join np n d0 V k"
  proof (cases "k = 0")
    case True
    then have "dk = d0" using first lk k by simp
    then show ?thesis using True alloc_fields_empty[OF dd, of np n V] by simp
  next
    case False
    show ?thesis
    proof (cases "partial_join np n d0 V k = []")
      case True
      then have "d0 = []" by (simp add: partial_join_def)
      then have "dk = []" using keys by simp
      then show ?thesis using False True by (simp add: alloc_fields_def)
    next
      case nonempty: False
      then show ?thesis using False by simp
    qed
  qed
  have gi: "getitem ids (int k) = Inr (elems ids ! k)"
    using getitem_nat[of k ids] k n by simp
  have fill: "fill_fields np (partial_join np n d0 V k) cl_dict k dk
      = Inr (partial_join np n d0 V (Suc k))"
  proof -
    have mvk: "\<forall>f \<in> fst ` set d0. member_value np lookup ids loc_id k f = Some (V k f)"
      using mv k by blast
    show ?thesis
      by (rule join_step[where lookup = lookup and np = np and ids = ids and V = V,
            OF lid nle k lk keys dd mvk])
  qed
  have up: "[k..<n] = k # [Suc k..<n]" using k by (simp add: upt_conv_Cons)
  have m: "m = n - Suc k" using Suc.hyps(2) by simp
  have le: "Suc k \<le> n" using k by simp
  have "join_loop np lookup cl_dict ids n ?cl [k..<n]
      = join_loop np lookup cl_dict ids n (partial_join np n d0 V (Suc k)) [Suc k..<n]"
    unfolding up by (simp add: rbind_def gi lk start fill del: upt_Suc)
  also have "\<dots> = Inr (if n = 0 then [] else partial_join np n d0 V n)"
    using Suc.hyps(1)[OF m le] by simp
  finally show ?case .
qed

lemma partial_join_full: "(if n = 0 then [] else partial_join np n d0 V n) = joined np n d0 V"
  by (simp add: partial_join_def joined_def)

text \<open>
  Claim C2. For an existing group whose cross-reference holds \<open>loc_id\<close> and the field of
  group numbers (\<open>frame\<close> when there is a field \<open>frame\<close>, which selects the lookup by
  frame, else \<open>track_id\<close> and the lookup by track), with \<open>n\<close> members: when the lookup
  for every member succeeds with the fields of the first lookup and gives a value at the
  member's \<open>loc_id\<close> for each of them, \<open>getClusterData\<close> returns, for each such field, an
  array of length \<open>n\<close> and of the dtype the field has in the first lookup, holding at
  position \<open>i\<close> the value looked up for member \<open>i\<close>, and then the cross-reference fields
  merged in (they win over a looked-up field of the same name).
\<close>

theorem cluster_data_join:
  assumes c: "clusters h = Some c" and g: "children c (getClusterName index) = Some g"
    and dg: "distinct (map fst (datasets g))"
    and ids: "map_of (datasets g) (mode_key (datasets g)) = Some ids"
    and lid: "map_of (datasets g) ''loc_id'' = Some loc_id"
    and nle: "size_of ids \<le> size_of loc_id"
    and looks: "\<forall>i < size_of ids. \<exists>d.
        mode_lookup rs (datasets g) fields' (np_int np (elems ids ! i)) = Inr d
        \<and> map fst d = map fst d0"
    and first: "0 < size_of ids \<longrightarrow>
        mode_lookup rs (datasets g) fields' (np_int np (elems ids ! 0)) = Inr d0"
    and dd: "distinct (map fst d0)"
    and mv: "\<forall>i < size_of ids. \<forall>f \<in> fst ` set d0.
        member_value np (mode_lookup rs (datasets g) fields') ids loc_id i f = Some (V i f)"
  shows "getClusterData np rs h index fields'
       = Inr (merge_fields (joined np (size_of ids) d0 V) (datasets g))
     \<and> map_of (merge_fields (joined np (size_of ids) d0 V) (datasets g))
       = map_of (joined np (size_of ids) d0 V) ++ map_of (datasets g)"
proof
  let ?lookup = "mode_lookup rs (datasets g) fields'"
  let ?n = "size_of ids"
  have ne: "datasets g \<noteq> []" using lid by auto
  have loop: "join_loop np ?lookup (datasets g) ids ?n [] [0..<?n] = Inr (joined np ?n d0 V)"
    using join_loop_ok[where lookup = ?lookup and np = np and ids = ids and V = V and k = 0
        and n = ?n, OF lid refl nle looks first dd mv]
    unfolding partial_join_full by simp
  show "getClusterData np rs h index fields'
       = Inr (merge_fields (joined np ?n d0 V) (datasets g))"
  proof (cases "dict_has (datasets g) ''frame''")
    case True
    then have l: "?lookup = (\<lambda>f. getLocalizationsInFrame rs f True fields')"
      and i: "map_of (datasets g) ''frame'' = Some ids"
      using ids by (simp_all add: mode_lookup_def mode_key_def)
    show ?thesis
      using True ne loop unfolding l
      by (simp add: getClusterData_def getClusterGroup_Some[OF c] g getCluster_distinct[OF dg]
          rbind_def dict_get_def i)
  next
    case False
    then have l: "?lookup = (\<lambda>t. getTracksByIndex rs t fields')"
      and i: "map_of (datasets g) ''track_id'' = Some ids"
      using ids by (simp_all add: mode_lookup_def mode_key_def)
    show ?thesis
      using False ne loop unfolding l
      by (simp add: getClusterData_def getClusterGroup_Some[OF c] g getCluster_distinct[OF dg]
          rbind_def dict_get_def i)
  qed
  show "map_of (merge_fields (joined np ?n d0 V) (datasets g))
       = map_of (joined np ?n d0 V) ++ map_of (datasets g)"
    by (rule map_of_merge[OF dg])
qed

theorem cluster_data_join_witness:
  "getClusterData example_np example_store
     \<lparr>clusters = Some \<lparr>children =
         [''cl_1'' \<mapsto> \<lparr>datasets = [(''frame'', \<lparr>dtype = ''int64'', elems = [0, 1, 0]\<rparr>),
                                   (''loc_id'', \<lparr>dtype = ''int64'', elems = [1, 0, 0]\<rparr>)],
                       cl_size_attr = Some 3\<rparr>],
        n_clusters_attr = Some 1, info_attr = None\<rparr>\<rparr> 1 None
   = Inr [(''x'', \<lparr>dtype = ''float32'', elems = [2, 7, 1]\<rparr>),
          (''y'', \<lparr>dtype = ''float32'', elems = [4, 8, 3]\<rparr>),
          (''z'', \<lparr>dtype = ''float32'', elems = [6, 9, 5]\<rparr>),
          (''category'', \<lparr>dtype = ''int32'', elems = [1, 2, 0]\<rparr>),
          (''frame'', \<lparr>dtype = ''int64'', elems = [0, 1, 0]\<rparr>),
          (''loc_id'', \<lparr>dtype = ''int64'', elems = [1, 0, 0]\<rparr>)]"
proof -
  let ?ids = "\<lparr>dtype = ''int64'', elems = [0, 1, 0 :: int]\<rparr>"
  let ?loc = "\<lparr>dtype = ''int64'', elems = [1, 0, 0 :: int]\<rparr>"
  let ?g = "\<lparr>datasets = [(''frame'', ?ids), (''loc_id'', ?loc)], cl_size_attr = Some 3\<rparr>"
  let ?c = "\<lparr>children = [''cl_1'' \<mapsto> ?g], n_clusters_attr = Some 1, info_attr = None\<rparr>"
  let ?h = "\<lparr>clusters = Some ?c\<rparr>"
  let ?lookup = "mode_lookup example_store (datasets ?g) None"
  define V where "V = (\<lambda>i f. the (member_value example_np ?lookup ?ids ?loc i f))"
  have lk: "?lookup = (\<lambda>f. if f = 0 then Inr example_frame0
                              else if f = 1 then Inr example_frame1 else Inr [])"
    by (simp add: mode_lookup_def dict_has_def example_store_def)
  have n: "size_of ?ids = 3" by (simp add: size_of_def)
  have lt3: "i < 3 \<longleftrightarrow> i = 0 \<or> i = 1 \<or> i = 2" for i :: nat by auto
  have keys: "map fst example_frame1 = map fst example_frame0"
    by (simp add: example_frame0_def example_frame1_def)
  have ks: "fst ` set example_frame0 = {''x'', ''y'', ''z'', ''category''}"
    by (simp add: example_frame0_def)
  have mvs: "member_value example_np ?lookup ?ids ?loc i f \<noteq> None"
    if "i < 3" "f \<in> {''x'', ''y'', ''z'', ''category''}" for i f
    using that unfolding lk lt3
    by (auto simp: member_value_def example_np_def example_frame0_def example_frame1_def
        getitem_def size_of_def)
  have h1: "clusters ?h = Some ?c" by simp
  have h2: "children ?c (getClusterName 1) = Some ?g" by (simp add: nms)
  have h3: "distinct (map fst (datasets ?g))" by simp
  have h4: "map_of (datasets ?g) (mode_key (datasets ?g)) = Some ?ids"
    by (simp add: mode_key_def dict_has_def)
  have h5: "map_of (datasets ?g) ''loc_id'' = Some ?loc" by simp
  have h6: "size_of ?ids \<le> size_of ?loc" by (simp add: size_of_def)
  have h7: "\<forall>i < size_of ?ids. \<exists>d. ?lookup (np_int example_np (elems ?ids ! i)) = Inr d
        \<and> map fst d = map fst example_frame0"
    unfolding n lk lt3 by (auto simp: example_np_def keys)
  have h8: "0 < size_of ?ids \<longrightarrow> ?lookup (np_int example_np (elems ?ids ! 0)) = Inr example_frame0"
    unfolding lk by (simp add: example_np_def)
  have h9: "distinct (map fst example_frame0)" by (simp add: example_frame0_def)
  have h10: "\<forall>i < size_of ?ids. \<forall>f \<in> fst ` set example_frame0.
        member_value example_np ?lookup ?ids ?loc i f = Some (V i f)"
    unfolding n ks V_def using mvs by auto
  have v: "V 0 ''x'' = 2" "V (Suc 0) ''x'' = 7" "V 2 ''x'' = 1"
    "V 0 ''y'' = 4" "V (Suc 0) ''y'' = 8" "V 2 ''y'' = 3"
    "V 0 ''z'' = 6" "V (Suc 0) ''z'' = 9" "V 2 ''z'' = 5"
    "V 0 ''category'' = 1" "V (Suc 0) ''category'' = 2" "V 2 ''category'' = 0"
    unfolding V_def lk
    by (simp_all add: member_value_def example_np_def example_frame0_def example_frame1_def
        getitem_def size_of_def)
  have up3: "[0..<3] = [0, 1, 2]" by (simp add: upt_rec)
  have j: "joined example_np 3 example_frame0 V
      = [(''x'', \<lparr>dtype = ''float32'', elems = [2, 7, 1]\<rparr>),
         (''y'', \<lparr>dtype = ''float32'', elems = [4, 8, 3]\<rparr>),
         (''z'', \<lparr>dtype = ''float32'', elems = [6, 9, 5]\<rparr>),
         (''category'', \<lparr>dtype = ''int32'', elems = [1, 2, 0]\<rparr>)]"
    unfolding joined_def up3 by (simp add: example_frame0_def v) (simp add: example_np_def)
  have "getClusterData example_np example_store ?h 1 None
      = Inr (merge_fields (joined example_np (size_of ?ids) example_frame0 V) (datasets ?g))"
    using cluster_data_join[where np = example_np and rs = example_store and V = V and h = ?h
        and index = 1 and fields' = None, OF h1 h2 h3 h4 h5 h6 h7 h8 h9 h10]
    by (rule conjunct1)
  then show ?thesis unfolding n j by (simp add: merge_fields_def)
qed

end
